theory Spec2Isabelle
  imports Complex_Main
begin

section \<open>JavaScript values\<close>

text \<open>
  The client in \<^verbatim>\<open>frontend/app/page.tsx\<close> works on whatever \<^verbatim>\<open>JSON.parse\<close> returns, so the
  model has the values of JavaScript that JSON can produce, and \<^verbatim>\<open>undefined\<close> for a
  property that is absent. A string is a list of code units; the model has the code units
  0 to 255 (\<^typ>\<open>char\<close>), read as U+0000 to U+00FF. An object is an association list read
  with \<^const>\<open>map_of\<close>. A number is a finite rational or one of the two infinities
  (a literal such as \<^verbatim>\<open>1e999\<close> parses to \<^verbatim>\<open>Infinity\<close>); \<^verbatim>\<open>NaN\<close> arises from conversions.
\<close>

datatype jsnum = Fin rat | PosInf | NegInf | NaN

datatype jsval =
    Undefined
  | Null
  | Bool bool
  | Num jsnum
  | Str string
  | Arr "jsval list"
  | Obj "(string \<times> jsval) list"

text \<open>
  The operations of the platform that the client calls and the repository does not define:
  \<^verbatim>\<open>JSON.parse\<close> (\<open>None\<close> when it throws a SyntaxError) and the conversions between
  numbers and strings of the language.
\<close>

record platform =
  JSON_parse :: "string \<Rightarrow> jsval option"
  StringToNumber :: "string \<Rightarrow> jsnum"
  NumberToString :: "jsnum \<Rightarrow> string"

fun num_truthy :: "jsnum \<Rightarrow> bool" where
  "num_truthy (Fin q) = (q \<noteq> 0)"
| "num_truthy PosInf = True"
| "num_truthy NegInf = True"
| "num_truthy NaN = False"

fun num_gt0 :: "jsnum \<Rightarrow> bool" where
  "num_gt0 (Fin q) = (0 < q)"
| "num_gt0 PosInf = True"
| "num_gt0 NegInf = False"
| "num_gt0 NaN = False"

text \<open>The condition of an \<^verbatim>\<open>if\<close>, and the left operand of \<^verbatim>\<open>&&\<close> and \<^verbatim>\<open>||\<close>.\<close>

fun truthy :: "jsval \<Rightarrow> bool" where
  "truthy Undefined = False"
| "truthy Null = False"
| "truthy (Bool b) = b"
| "truthy (Num n) = num_truthy n"
| "truthy (Str s) = (s \<noteq> [])"
| "truthy (Arr xs) = True"
| "truthy (Obj kvs) = True"

definition js_or :: "jsval \<Rightarrow> jsval \<Rightarrow> jsval" where
  "js_or a b = (if truthy a then a else b)"

text \<open>
  \<^verbatim>\<open>v.k\<close> and \<^verbatim>\<open>v?.k\<close> for the property names the client reads (none of them is a member
  of a built-in prototype, so only an object's own properties answer). On \<^verbatim>\<open>null\<close> and
  \<^verbatim>\<open>undefined\<close> the value is that of \<^verbatim>\<open>?.\<close>; the plain read throws a TypeError there, and
  the handlers below call \<open>js_get\<close> for a plain read only behind the guard the source has, the
  one unguarded read being modelled by \<open>nullish\<close> where it happens.
\<close>

fun js_get :: "jsval \<Rightarrow> string \<Rightarrow> jsval" where
  "js_get (Obj kvs) k = (case map_of kvs k of Some x \<Rightarrow> x | None \<Rightarrow> Undefined)"
| "js_get v k = Undefined"

fun nullish :: "jsval \<Rightarrow> bool" where
  "nullish Undefined = True"
| "nullish Null = True"
| "nullish v = False"

text \<open>\<^verbatim>\<open>v.length\<close> for a value that is neither \<^verbatim>\<open>null\<close> nor \<^verbatim>\<open>undefined\<close>.\<close>

fun js_length :: "jsval \<Rightarrow> jsval" where
  "js_length (Arr xs) = Num (Fin (of_nat (length xs)))"
| "js_length (Str s) = Num (Fin (of_nat (length s)))"
| "js_length (Obj kvs) = js_get (Obj kvs) ''length''"
| "js_length v = Undefined"

fun join_comma :: "string list \<Rightarrow> string" where
  "join_comma [] = []"
| "join_comma [s] = s"
| "join_comma (s # t # ss) = s @ '','' @ join_comma (t # ss)"

fun sequence_option :: "'a option list \<Rightarrow> 'a list option" where
  "sequence_option [] = Some []"
| "sequence_option (None # xs) = None"
| "sequence_option (Some x # xs) = map_option ((#) x) (sequence_option xs)"

text \<open>
  The conversion of a value to a string (a property key, or the first step of a comparison
  of an object with a number). \<open>None\<close> is a TypeError: an object parsed from JSON whose own
  \<^verbatim>\<open>toString\<close> property hides the inherited method has no primitive value.
\<close>

fun ToString :: "platform \<Rightarrow> jsval \<Rightarrow> string option" where
  "ToString pf Undefined = Some ''undefined''"
| "ToString pf Null = Some ''null''"
| "ToString pf (Bool b) = Some (if b then ''true'' else ''false'')"
| "ToString pf (Num n) = Some (NumberToString pf n)"
| "ToString pf (Str s) = Some s"
| "ToString pf (Arr xs) =
     map_option join_comma
       (sequence_option (map (\<lambda>x. if nullish x then Some [] else ToString pf x) xs))"
| "ToString pf (Obj kvs) =
     (if ''toString'' \<in> fst ` set kvs then None else Some ''[object Object]'')"

text \<open>\<^verbatim>\<open>v > 0\<close>; \<open>None\<close> when the conversion of \<open>v\<close> to a primitive throws.\<close>

fun js_gt0 :: "platform \<Rightarrow> jsval \<Rightarrow> bool option" where
  "js_gt0 pf Undefined = Some False"
| "js_gt0 pf Null = Some False"
| "js_gt0 pf (Bool b) = Some b"
| "js_gt0 pf (Num n) = Some (num_gt0 n)"
| "js_gt0 pf (Str s) = Some (num_gt0 (StringToNumber pf s))"
| "js_gt0 pf v = map_option (\<lambda>s. num_gt0 (StringToNumber pf s)) (ToString pf v)"

section \<open>Strings\<close>

text \<open>White space as \<^verbatim>\<open>trim\<close> and the class \<^verbatim>\<open>\s\<close> see it, among the code units of the model.\<close>

definition is_space :: "char \<Rightarrow> bool" where
  "is_space c = (of_char c \<in> {9, 10, 11, 12, 13, 32, 160 :: nat})"

definition trim :: "string \<Rightarrow> string" where
  "trim s = rev (dropWhile is_space (rev (dropWhile is_space s)))"

definition startsWith :: "string \<Rightarrow> string \<Rightarrow> bool" where
  "startsWith s p = (take (length p) s = p)"

text \<open>\<^verbatim>\<open>s.split('\n')\<close>: never empty, one more element than \<open>s\<close> has line feeds.\<close>

fun split_lines :: "string \<Rightarrow> string list" where
  "split_lines [] = [[]]"
| "split_lines (c # cs) =
     (if c = CHR 0x0A then [] # split_lines cs
      else (case split_lines cs of l # ls \<Rightarrow> (c # l) # ls | [] \<Rightarrow> [[c]]))"

section \<open>Status text of a progress event\<close>

text \<open>
  The flag \<^verbatim>\<open>i\<close>: two code units match when they are the same letter of A to Z in either case
  (no other code unit of the model is folded onto such a letter).
\<close>

definition lower :: "char \<Rightarrow> char" where
  "lower c =
     (case map_of (zip ''ABCDEFGHIJKLMNOPQRSTUVWXYZ'' ''abcdefghijklmnopqrstuvwxyz'') c of
        Some l \<Rightarrow> l
      | None \<Rightarrow> c)"

text \<open>
  One attempt of \<^verbatim>\<open>/word\s+/i\<close> at the start of \<open>s\<close>: the word in either case, then all the
  white space that follows, at least one; the result is what is left of \<open>s\<close> after the match.
\<close>

definition match_here :: "string \<Rightarrow> string \<Rightarrow> string option" where
  "match_here w s =
     (if map lower (take (length w) s) = map lower w
         \<and> drop (length w) s \<noteq> [] \<and> is_space (hd (drop (length w) s))
      then Some (dropWhile is_space (drop (length w) s)) else None)"

text \<open>\<^verbatim>\<open>s.replace(/word\s+/i, repl)\<close>: the leftmost match only.\<close>

fun replace_first :: "string \<Rightarrow> string \<Rightarrow> string \<Rightarrow> string" where
  "replace_first w repl [] = []"
| "replace_first w repl (c # cs) =
     (case match_here w (c # cs) of
        Some rest \<Rightarrow> repl @ rest
      | None \<Rightarrow> c # replace_first w repl cs)"

text \<open>\<^verbatim>\<open>s.replace(/\.\.\./g, '...')\<close>: every match, left to right, no two overlapping.\<close>

fun replace_dots :: "string \<Rightarrow> string" where
  "replace_dots [] = []"
| "replace_dots (c # cs) =
     (if take 3 (c # cs) = ''...'' then ''...'' @ replace_dots (drop 2 cs)
      else c # replace_dots cs)"

definition statusMap :: "(string \<times> string) list" where
  "statusMap =
     [(''classify'', ''Understanding your question...''),
      (''agent'', ''Preparing response...''),
      (''document_search'', ''Searching knowledge base...''),
      (''finalize_response'', ''Finalizing answer...'')]"

text \<open>
  \<^verbatim>\<open>statusMap\<close> is an object literal, so \<^verbatim>\<open>statusMap[node]\<close> also finds what every object
  inherits from \<^verbatim>\<open>Object.prototype\<close>; each of those members is a function or an object.
\<close>

definition object_prototype_names :: "string list" where
  "object_prototype_names =
     [''constructor'', ''__defineGetter__'', ''__defineSetter__'', ''hasOwnProperty'',
      ''__lookupGetter__'', ''__lookupSetter__'', ''isPrototypeOf'', ''propertyIsEnumerable'',
      ''toString'', ''valueOf'', ''__proto__'', ''toLocaleString'']"

text \<open>
  What the function hands to \<^verbatim>\<open>setCurrentStatus\<close>: a text, or the inherited member of that
  name.
\<close>

datatype status_value = StatusText string | Inherited string

definition statusMap_get :: "string \<Rightarrow> status_value option" where
  "statusMap_get node =
     (case map_of statusMap node of
        Some phrase \<Rightarrow> Some (StatusText phrase)
      | None \<Rightarrow> if node \<in> set object_prototype_names then Some (Inherited node) else None)"

definition cleanup :: "string \<Rightarrow> string" where
  "cleanup message =
     replace_dots (replace_first ''Completed'' ''Finished '' (replace_first ''Processing'' [] message))"

definition getFriendlyStatusMessage :: "string \<Rightarrow> string \<Rightarrow> status_value" where
  "getFriendlyStatusMessage node message =
     (case statusMap_get node of
        Some v \<Rightarrow> v
      | None \<Rightarrow> StatusText (cleanup message))"

section \<open>State of the page\<close>

text \<open>
  The state variables of the component \<^verbatim>\<open>Home\<close> that the chat turn and the bulk run write
  (\<^verbatim>\<open>input\<close>, \<^verbatim>\<open>mode\<close>, \<^verbatim>\<open>uploadedFile\<close> and \<^verbatim>\<open>sessionId\<close> are left out, and so are the
  wall-clock time stamps stored beside a message and beside the classification).
  \<open>timers\<close> is not a state variable: it is the set of handles of \<^verbatim>\<open>setTimeout\<close> that are still
  pending in the browser.
\<close>

datatype message = UserMessage string | AssistantMessage jsval

record home_state =
  chatStarted :: bool
  messages :: "message list"
  isLoading :: bool
  currentStatus :: status_value
  citations :: jsval
  internalAnalysis :: "jsval option"
  showInternalView :: bool
  rateLimitTimer :: "nat option"
  ticketData :: "jsval list"
  processedCount :: nat
  totalCount :: nat
  bulkResults :: "jsval list"
  timers :: "nat set"

text \<open>
  A handler defined inside the component sees the state variables of the render that created
  it, as constants: \<^verbatim>\<open>isLoading\<close> and \<^verbatim>\<open>rateLimitTimer\<close> inside \<^verbatim>\<open>handleSendMessage\<close>, and
  inside the timer callback it creates, are the values of that render, whatever the setters
  have been given since.
\<close>

record closure =
  cap_isLoading :: bool
  cap_rateLimitTimer :: "nat option"

text \<open>
  \<^verbatim>\<open>if (rateLimitTimer) { clearTimeout(rateLimitTimer); setRateLimitTimer(null); }\<close>
\<close>

definition clear_rate_limit :: "closure \<Rightarrow> home_state \<Rightarrow> home_state" where
  "clear_rate_limit env s =
     (case cap_rateLimitTimer env of
        None \<Rightarrow> s
      | Some t \<Rightarrow> s\<lparr>rateLimitTimer := None, timers := timers s - {t}\<rparr>)"

section \<open>The stream reducer of a chat turn\<close>

text \<open>
  The end of a terminal branch: the assistant message, then the citations.
  \<open>Inl\<close> is the state at which \<^verbatim>\<open>responseSources.length > 0\<close> threw (the message is already
  appended), \<open>Inr\<close> the state after the block.
\<close>

definition deliver :: "platform \<Rightarrow> home_state \<Rightarrow> jsval \<Rightarrow> jsval \<Rightarrow> home_state + home_state" where
  "deliver pf s finalContent responseSources =
     (if truthy finalContent then
        (let s' = s\<lparr>messages := messages s @ [AssistantMessage finalContent]\<rparr> in
         case js_gt0 pf (js_length responseSources) of
           None \<Rightarrow> Inl s'
         | Some True \<Rightarrow> Inr (s'\<lparr>citations := responseSources\<rparr>)
         | Some False \<Rightarrow> Inr s')
      else Inr s)"

text \<open>
  The content and the sources of a flattened payload, by \<^verbatim>\<open>response_type\<close> (lines 445 to 453).
\<close>

definition extract_flat :: "jsval \<Rightarrow> jsval \<times> jsval" where
  "extract_flat final_response =
     (if js_get final_response ''response_type'' = Str ''rag_answer''
         \<and> truthy (js_get final_response ''rag_response'')
      then (js_get (js_get final_response ''rag_response'') ''answer'',
            js_or (js_get (js_get final_response ''rag_response'') ''sources'') (Arr []))
      else if js_get final_response ''response_type'' = Str ''routing_message''
         \<and> truthy (js_get final_response ''routing_response'')
      then (js_get (js_get final_response ''routing_response'') ''message'', Arr [])
      else (Str [], Arr []))"

text \<open>
  The content and the sources of the \<^verbatim>\<open>data\<close> of a wrapped payload, by which answer is there
  (lines 506 to 513, and 349 to 354).
\<close>

definition extract_wrapped :: "jsval \<Rightarrow> jsval \<times> jsval" where
  "extract_wrapped responseData =
     (if truthy (js_get (js_get (js_get responseData ''final_response'') ''rag_response'') ''answer'')
      then (js_get (js_get (js_get responseData ''final_response'') ''rag_response'') ''answer'',
            js_or (js_get (js_get (js_get responseData ''final_response'') ''rag_response'') ''sources'')
              (Arr []))
      else if truthy (js_get (js_get (js_get responseData ''final_response'') ''routing_response'') ''message'')
      then (js_get (js_get (js_get responseData ''final_response'') ''routing_response'') ''message'',
            Arr [])
      else (Str [], Arr []))"

definition store_analysis :: "jsval \<Rightarrow> home_state \<Rightarrow> home_state" where
  "store_analysis responseData s =
     (if truthy (js_get responseData ''internal_analysis'')
      then s\<lparr>internalAnalysis :=
               Some (js_get (js_get responseData ''internal_analysis'') ''classification'')\<rparr>
      else s)"

text \<open>
  The content and the sources of an event whose \<^verbatim>\<open>type\<close> is \<^verbatim>\<open>final_response\<close> or
  \<^verbatim>\<open>final_result\<close> (lines 489 to 516).
\<close>

definition extract_typed :: "jsval \<Rightarrow> jsval \<times> jsval" where
  "extract_typed parsed =
     (if js_get parsed ''type'' = Str ''final_result'' \<and> truthy (js_get parsed ''data'')
      then extract_wrapped (js_get parsed ''data'')
      else (js_or (js_get parsed ''data'')
              (js_or (js_get parsed ''content'') (js_get (js_get parsed ''response'') ''data'')),
            Arr []))"

text \<open>
  The call \<^verbatim>\<open>getFriendlyStatusMessage(parsed.node, parsed.message)\<close> on values of any type:
  the node becomes a property key, and \<^verbatim>\<open>message.replace\<close> is a function only on a string.
  \<open>None\<close> is a TypeError.
\<close>

definition friendly_status :: "platform \<Rightarrow> jsval \<Rightarrow> jsval \<Rightarrow> status_value option" where
  "friendly_status pf node message =
     (case ToString pf node of
        None \<Rightarrow> None
      | Some key \<Rightarrow>
          (case message of
             Str m \<Rightarrow> Some (getFriendlyStatusMessage key m)
           | _ \<Rightarrow> statusMap_get key))"

text \<open>
  The body of the \<^verbatim>\<open>try\<close> after \<^verbatim>\<open>JSON.parse\<close> in the read loop (lines 419 to 552), with
  its \<^verbatim>\<open>catch\<close>: whatever is thrown there ends the work on this line and nothing else.
\<close>

definition handle_parsed :: "platform \<Rightarrow> closure \<Rightarrow> home_state \<Rightarrow> jsval \<Rightarrow> home_state" where
  "handle_parsed pf env s parsed =
     (if nullish parsed then s
      else if truthy (js_get parsed ''internal_analysis'') \<and> truthy (js_get parsed ''final_response'')
      then
        (let s1 = clear_rate_limit env (s\<lparr>currentStatus := StatusText [], isLoading := False\<rparr>);
             s2 = s1\<lparr>internalAnalysis :=
                     Some (js_get (js_get parsed ''internal_analysis'') ''classification'')\<rparr>;
             (finalContent, responseSources) = extract_flat (js_get parsed ''final_response'')
         in case deliver pf s2 finalContent responseSources of Inl s3 \<Rightarrow> s3 | Inr s3 \<Rightarrow> s3)
      else if js_get parsed ''type'' = Str ''node_complete''
      then
        (let r = (if truthy (js_get parsed ''message'')
                  then map_option (\<lambda>friendlyMessage. s\<lparr>currentStatus := friendlyMessage\<rparr>)
                         (friendly_status pf (js_get parsed ''node'') (js_get parsed ''message''))
                  else Some s)
         in case r of
              None \<Rightarrow> s
            | Some s1 \<Rightarrow>
                if js_get parsed ''node'' = Str ''classify'' \<and> truthy (js_get parsed ''data'')
                then s1\<lparr>internalAnalysis := Some (js_get parsed ''data'')\<rparr>
                else s1)
      else if js_get parsed ''type'' = Str ''final_response''
           \<or> js_get parsed ''type'' = Str ''final_result''
      then
        (let s1 = clear_rate_limit env (s\<lparr>currentStatus := StatusText [], isLoading := False\<rparr>);
             s2 = (if js_get parsed ''type'' = Str ''final_result'' \<and> truthy (js_get parsed ''data'')
                   then store_analysis (js_get parsed ''data'') s1 else s1);
             (finalContent, responseSources) = extract_typed parsed
         in case deliver pf s2 finalContent responseSources of
              Inl s3 \<Rightarrow> s3
            | Inr s3 \<Rightarrow>
                (let c = js_or (js_get parsed ''citations'')
                           (js_get (js_get parsed ''response'') ''citations'')
                 in if truthy c then s3\<lparr>citations := c\<rparr> else s3))
      else if truthy (js_get parsed ''response'') \<and> truthy (js_get (js_get parsed ''response'') ''data'')
      then
        (let s1 = clear_rate_limit env (s\<lparr>currentStatus := StatusText [], isLoading := False\<rparr>);
             s2 = s1\<lparr>messages :=
                     messages s1 @ [AssistantMessage (js_get (js_get parsed ''response'') ''data'')]\<rparr>
         in if truthy (js_get (js_get parsed ''response'') ''citations'')
            then s2\<lparr>citations := js_get (js_get parsed ''response'') ''citations''\<rparr>
            else s2)
      else s)"

text \<open>One line of the read loop (lines 394 to 558).\<close>

definition process_line :: "platform \<Rightarrow> closure \<Rightarrow> home_state \<Rightarrow> string \<Rightarrow> home_state" where
  "process_line pf env s line =
     (if startsWith line ''data: '' then
        (let data = trim (drop 6 line) in
         if data = ''[DONE]''
         then clear_rate_limit env (s\<lparr>isLoading := False, currentStatus := StatusText []\<rparr>)
         else if data = [] then s
         else (case JSON_parse pf data of
                 None \<Rightarrow> s
               | Some parsed \<Rightarrow> handle_parsed pf env s parsed))
      else s)"

text \<open>
  The end of the stream (lines 323 to 383): what is left in the buffer is looked at once,
  for a wrapped payload only, then the loading state is reset if the closure saw it set.
\<close>

definition flush_parsed :: "platform \<Rightarrow> home_state \<Rightarrow> jsval \<Rightarrow> home_state" where
  "flush_parsed pf s parsed =
     (if nullish parsed then s
      else if js_get parsed ''type'' = Str ''final_result'' \<and> truthy (js_get parsed ''data'')
      then
        (let s1 = store_analysis (js_get parsed ''data'') s;
             (finalContent, responseSources) = extract_wrapped (js_get parsed ''data'')
         in case deliver pf s1 finalContent responseSources of Inl s2 \<Rightarrow> s2 | Inr s2 \<Rightarrow> s2)
      else s)"

definition flush_buffer :: "platform \<Rightarrow> closure \<Rightarrow> home_state \<Rightarrow> string \<Rightarrow> home_state" where
  "flush_buffer pf env s buffer =
     (let s1 =
        (if trim buffer \<noteq> [] \<and> startsWith (trim buffer) ''data: '' then
           (let data = trim (drop 6 (trim buffer)) in
            if data \<noteq> [] \<and> data \<noteq> ''[DONE]''
            then (case JSON_parse pf data of
                    None \<Rightarrow> s
                  | Some parsed \<Rightarrow> flush_parsed pf s parsed)
            else s)
         else s)
      in if cap_isLoading env
         then clear_rate_limit env
                (s1\<lparr>currentStatus := StatusText ''Processing complete'', isLoading := False\<rparr>)
         else s1)"

text \<open>
  The read loop (lines 321 to 392) while chunks arrive: each chunk is appended to the buffer,
  the buffer is split at line feeds, the last piece is the new buffer and the pieces before
  it are processed in order. The result is the state and the buffer when the chunks are used
  up.
\<close>

fun read_chunks ::
  "platform \<Rightarrow> closure \<Rightarrow> home_state \<Rightarrow> string \<Rightarrow> string list \<Rightarrow> home_state \<times> string" where
  "read_chunks pf env s buffer [] = (s, buffer)"
| "read_chunks pf env s buffer (chunk # chunks) =
     (let lines = split_lines (buffer @ chunk)
      in read_chunks pf env (foldl (process_line pf env) s (butlast lines)) (last lines) chunks)"

text \<open>The whole loop on a stream that ends after the given chunks.\<close>

definition read_loop :: "platform \<Rightarrow> closure \<Rightarrow> home_state \<Rightarrow> string list \<Rightarrow> home_state" where
  "read_loop pf env s chunks =
     (case read_chunks pf env s [] chunks of (s', buffer) \<Rightarrow> flush_buffer pf env s' buffer)"

section \<open>A chat turn\<close>

text \<open>What the network gives to one \<^verbatim>\<open>fetch\<close> and to the reads of its body.\<close>

datatype js_error = JsError (err_name: string) (err_message: string)

datatype response =
    Rejected js_error
  | NotOk nat string
  | NoBody
  | Stream "string list" "js_error option"

function show_nat :: "nat \<Rightarrow> string" where
  "show_nat n =
     (if n < 10 then [char_of (48 + n)] else show_nat (n div 10) @ [char_of (48 + n mod 10)])"
  by pat_completeness auto
termination
  by (relation "measure id") auto

fun includes_str :: "string \<Rightarrow> string \<Rightarrow> bool" where
  "includes_str [] p = (p = [])"
| "includes_str (c # cs) p = (startsWith (c # cs) p \<or> includes_str cs p)"

definition http_error :: "nat \<Rightarrow> string \<Rightarrow> js_error" where
  "http_error status statusText =
     JsError ''Error'' (''HTTP '' @ show_nat status @ '': '' @ statusText)"

text \<open>
  The advisory text of the watchdog; the source ends it with one more character, U+1F64F,
  which is outside the code units of the model.
\<close>

definition rateLimitMessage :: string where
  "rateLimitMessage =
     ''As we are using free tier of Gemini API in backend, the request got rate limited, please try after 60 seconds ''"

text \<open>
  Lines 261 to 289, for a message that is not blank: the user's message is appended, the
  loading state is set, and the watchdog is armed under the fresh handle \<open>wd\<close>. The timer
  that is cleared first is the one the closure knows.
\<close>

definition start_turn :: "closure \<Rightarrow> nat \<Rightarrow> string \<Rightarrow> home_state \<Rightarrow> home_state" where
  "start_turn env wd message s =
     (let s1 = s\<lparr>chatStarted := True,
                 messages := messages s @ [UserMessage message],
                 isLoading := True,
                 currentStatus := StatusText ''Understanding your question...'',
                 citations := Arr [],
                 internalAnalysis := None,
                 showInternalView := False\<rparr>;
          s2 = (case cap_rateLimitTimer env of
                  None \<Rightarrow> s1
                | Some t \<Rightarrow> s1\<lparr>timers := timers s1 - {t}\<rparr>)
      in s2\<lparr>timers := insert wd (timers s2), rateLimitTimer := Some wd\<rparr>)"

text \<open>
  The callback of the watchdog (lines 279 to 287), run by the browser 15 seconds after
  \<open>start_turn\<close> unless the handle \<open>wd\<close> has been cleared. Its \<^verbatim>\<open>isLoading\<close> is the closure's.
\<close>

definition watchdog :: "closure \<Rightarrow> nat \<Rightarrow> home_state \<Rightarrow> home_state" where
  "watchdog env wd s =
     (if wd \<in> timers s then
        (let s1 = s\<lparr>timers := timers s - {wd}\<rparr>
         in if cap_isLoading env
            then s1\<lparr>messages := messages s1 @ [AssistantMessage (Str rateLimitMessage)],
                    isLoading := False,
                    currentStatus := StatusText []\<rparr>
            else s1)
      else s)"

text \<open>The \<^verbatim>\<open>catch\<close> of the turn (lines 562 to 584).\<close>

definition error_text :: "js_error \<Rightarrow> string" where
  "error_text e =
     (if err_name e = ''AbortError'' then ''Request timed out. Please try again.''
      else if includes_str (err_message e) ''Failed to fetch''
      then ''Unable to connect to the server. Please check if the backend is running.''
      else if includes_str (err_message e) ''HTTP'' then ''Server error: '' @ err_message e
      else ''Sorry, something went wrong.'')"

definition catch_error :: "closure \<Rightarrow> js_error \<Rightarrow> home_state \<Rightarrow> home_state" where
  "catch_error env e s =
     (let s1 = clear_rate_limit env s
      in s1\<lparr>messages := messages s1 @ [AssistantMessage (Str (error_text e))]\<rparr>)"

text \<open>The \<^verbatim>\<open>finally\<close> of the turn (lines 585 to 594).\<close>

definition finally_turn :: "closure \<Rightarrow> home_state \<Rightarrow> home_state" where
  "finally_turn env s = clear_rate_limit env (s\<lparr>isLoading := False, currentStatus := StatusText []\<rparr>)"

text \<open>
  Lines 291 to 594: the 5-minute timer is armed under the handle \<open>hard\<close> and cleared as soon
  as the response has arrived; a rejected \<^verbatim>\<open>fetch\<close> or read goes to the \<^verbatim>\<open>catch\<close>. Only
  that timer aborts the request, so it has run when the rejection is an \<^verbatim>\<open>AbortError\<close>.
\<close>

definition after_start :: "platform \<Rightarrow> closure \<Rightarrow> nat \<Rightarrow> response \<Rightarrow> home_state \<Rightarrow> home_state" where
  "after_start pf env hard resp s =
     (let s1 = s\<lparr>timers := insert hard (timers s)\<rparr>
      in finally_turn env
           (case resp of
              Rejected e \<Rightarrow>
                catch_error env e
                  (if err_name e = ''AbortError'' then s1\<lparr>timers := timers s1 - {hard}\<rparr> else s1)
            | NotOk status statusText \<Rightarrow>
                catch_error env (http_error status statusText)
                  (clear_rate_limit env (s1\<lparr>timers := timers s1 - {hard}\<rparr>))
            | NoBody \<Rightarrow> clear_rate_limit env (s1\<lparr>timers := timers s1 - {hard}\<rparr>)
            | Stream chunks None \<Rightarrow>
                read_loop pf env (clear_rate_limit env (s1\<lparr>timers := timers s1 - {hard}\<rparr>)) chunks
            | Stream chunks (Some e) \<Rightarrow>
                catch_error env e
                  (fst (read_chunks pf env
                          (clear_rate_limit env (s1\<lparr>timers := timers s1 - {hard}\<rparr>)) [] chunks))))"

text \<open>
  \<^verbatim>\<open>handleSendMessage\<close> when nothing else runs between its steps. The watchdog's callback
  is a step of its own: the browser runs it while the turn waits for the network, or later.
\<close>

definition handleSendMessage ::
  "platform \<Rightarrow> closure \<Rightarrow> nat \<Rightarrow> nat \<Rightarrow> string \<Rightarrow> response \<Rightarrow> home_state \<Rightarrow> home_state" where
  "handleSendMessage pf env wd hard message resp s =
     (if trim message = [] then s
      else after_start pf env hard resp (start_turn env wd message s))"

section \<open>The bulk run\<close>

text \<open>The results that one chunk adds in \<^verbatim>\<open>processBatch\<close> (lines 175 to 190): no buffer.\<close>

definition chunk_results :: "platform \<Rightarrow> string \<Rightarrow> jsval list" where
  "chunk_results pf chunk =
     concat (map (\<lambda>line.
        if startsWith line ''data: '' then
          (let data = trim (drop 6 line) in
           if data \<noteq> [] then (case JSON_parse pf data of Some parsed \<Rightarrow> [parsed] | None \<Rightarrow> [])
           else [])
        else []) (split_lines chunk))"

datatype batch_result = Results "jsval list" nat | Failed string nat

definition processBatch :: "platform \<Rightarrow> jsval list \<Rightarrow> nat \<Rightarrow> response \<Rightarrow> batch_result" where
  "processBatch pf batch batchIndex resp =
     (case resp of
        Rejected e \<Rightarrow> Failed (err_message e) batchIndex
      | NotOk status statusText \<Rightarrow> Failed (err_message (http_error status statusText)) batchIndex
      | NoBody \<Rightarrow> Results [] batchIndex
      | Stream chunks None \<Rightarrow> Results (concat (map (chunk_results pf) chunks)) batchIndex
      | Stream chunks (Some e) \<Rightarrow> Failed (err_message e) batchIndex)"

text \<open>The batches (lines 208 to 214): \<^verbatim>\<open>data.slice(i, i + batchSize)\<close> for i = 0, 5, 10, ...\<close>

definition batchSize :: nat where
  "batchSize = 5"

function make_batches :: "nat \<Rightarrow> 'a list \<Rightarrow> 'a list list" where
  "make_batches i data =
     (if i < length data
      then take batchSize (drop i data) # make_batches (i + batchSize) data
      else [])"
  by pat_completeness auto
termination
  by (relation "measure (\<lambda>(i, data). length data - i)") (auto simp: batchSize_def)

text \<open>
  What the run does besides writing the state, in order: the status texts it shows, the
  request of a batch, the return of \<^verbatim>\<open>processBatch\<close> for it (its stream read to the end, or
  its failure caught), and the waits in milliseconds.
\<close>

datatype effect =
    Status string
  | Request nat "jsval list"
  | Returned nat batch_result
  | Pause nat

type_synonym network = "nat \<Rightarrow> jsval list \<Rightarrow> response"

text \<open>One round of the loop over the batches (lines 218 to 244).\<close>

definition bulk_step ::
  "platform \<Rightarrow> network \<Rightarrow> jsval list list \<Rightarrow> nat \<Rightarrow> home_state \<times> effect list
     \<Rightarrow> home_state \<times> effect list" where
  "bulk_step pf net batches i st =
     (let (s, tr) = st;
          batchStatus = ''Processing batch '' @ show_nat (i + 1) @ '' of ''
             @ show_nat (length batches) @ '' ('' @ show_nat (length (batches ! i)) @ '' tickets)...'';
          batchResult = processBatch pf (batches ! i) i (net i (batches ! i));
          tr1 = tr @ [Status batchStatus, Request i (batches ! i), Returned i batchResult];
          (s2, tr2) =
            (case batchResult of
               Results results _ \<Rightarrow>
                 (let msg = ''Batch '' @ show_nat (i + 1) @ '' completed successfully. ''
                      @ show_nat (length results) @ '' tickets processed.''
                  in (s\<lparr>bulkResults := bulkResults s @ results,
                        processedCount := processedCount s + length results,
                        currentStatus := StatusText msg\<rparr>,
                      tr1 @ [Status msg]))
             | Failed err _ \<Rightarrow>
                 if err \<noteq> [] then
                   (let msg = ''Batch '' @ show_nat (i + 1) @ '' failed: '' @ err
                        @ ''. Continuing with next batch...''
                    in (s\<lparr>currentStatus := StatusText msg\<rparr>, tr1 @ [Status msg, Pause 1000]))
                 else
                   (let msg = ''Batch '' @ show_nat (i + 1) @ '' completed with no results.''
                    in (s\<lparr>currentStatus := StatusText msg\<rparr>, tr1 @ [Status msg, Pause 500])))
      in if i < length batches - 1 then (s2, tr2 @ [Pause 200]) else (s2, tr2))"

function bulk_loop ::
  "platform \<Rightarrow> network \<Rightarrow> jsval list list \<Rightarrow> nat \<Rightarrow> home_state \<times> effect list
     \<Rightarrow> home_state \<times> effect list" where
  "bulk_loop pf net batches i st =
     (if i < length batches
      then bulk_loop pf net batches (i + 1) (bulk_step pf net batches i st)
      else st)"
  by pat_completeness auto
termination
  by (relation "measure (\<lambda>(pf, net, batches, i, st). length batches - i)") auto

definition startBulkProcessing ::
  "platform \<Rightarrow> network \<Rightarrow> jsval list \<Rightarrow> home_state \<Rightarrow> home_state \<times> effect list" where
  "startBulkProcessing pf net data s =
     (let s0 = s\<lparr>isLoading := True,
                 currentStatus := StatusText ''Starting batch processing...'',
                 bulkResults := [],
                 processedCount := 0\<rparr>;
          batches = make_batches 0 data;
          (s1, tr) = bulk_loop pf net batches 0 (s0, [Status ''Starting batch processing...'']);
          msg = ''Processing complete: '' @ show_nat (length data) @ '' tickets processed''
      in (s1\<lparr>isLoading := False, currentStatus := StatusText msg\<rparr>, tr @ [Status msg]))"

text \<open>
  \<^verbatim>\<open>handleFileUpload\<close> (lines 90 to 147) for a file that was chosen: \<open>Inl\<close> is the text of the
  alert, and the state is then left as it was; \<open>Inr\<close> is the state in which the run is started
  half a second later with the tickets of the file.
\<close>

record upload =
  file_name :: string
  file_size :: nat
  file_text :: string

definition endsWith :: "string \<Rightarrow> string \<Rightarrow> bool" where
  "endsWith s p = (length p \<le> length s \<and> drop (length s - length p) s = p)"

definition handleFileUpload :: "platform \<Rightarrow> upload \<Rightarrow> home_state \<Rightarrow> string + home_state" where
  "handleFileUpload pf file s =
     (if \<not> endsWith (file_name file) ''.json'' then Inl ''Please upload a JSON file''
      else if file_size file > 2 * 1024 * 1024 then Inl ''File size must be less than 2MB''
      else (case JSON_parse pf (file_text file) of
              None \<Rightarrow> Inl ''Invalid JSON file format''
            | Some (Arr data) \<Rightarrow>
                if list_ex nullish data then Inl ''Invalid JSON file format''
                else
                  (let invalidTickets =
                         filter (\<lambda>ticket. \<not> truthy (js_get ticket ''id'')
                                   \<or> \<not> truthy (js_get ticket ''body'')) data
                   in if length invalidTickets > 0
                      then Inl (show_nat (length invalidTickets)
                                @ '' tickets are missing required fields (id, body)'')
                      else Inr (s\<lparr>ticketData := data,
                                  totalCount := length data,
                                  processedCount := 0,
                                  bulkResults := [],
                                  currentStatus := StatusText (''File uploaded: ''
                                     @ show_nat (length data) @ '' tickets. Starting processing...'')\<rparr>))
            | Some _ \<Rightarrow> Inl ''JSON file must contain an array of tickets''))"

text \<open>An accepted upload followed by the run it starts.\<close>

definition upload_and_process ::
  "platform \<Rightarrow> network \<Rightarrow> upload \<Rightarrow> home_state \<Rightarrow> string + home_state \<times> effect list" where
  "upload_and_process pf net file s =
     (case handleFileUpload pf file s of
        Inl alert \<Rightarrow> Inl alert
      | Inr s' \<Rightarrow> Inr (startBulkProcessing pf net (ticketData s') s'))"

section \<open>Notions used to state the properties\<close>

text \<open>
  The clean-up of a status message in the words of the specification: a leading
  ``Processing'' or ``Completed'' is stripped (with the white space after it).
\<close>

definition spec_cleanup :: "string \<Rightarrow> string" where
  "spec_cleanup message =
     (case match_here ''Processing'' message of
        Some rest \<Rightarrow> rest
      | None \<Rightarrow> (case match_here ''Completed'' message of Some rest \<Rightarrow> rest | None \<Rightarrow> message))"

text \<open>A data line that reaches \<^verbatim>\<open>JSON.parse\<close> and fails to parse.\<close>

definition malformed :: "platform \<Rightarrow> string \<Rightarrow> bool" where
  "malformed pf line =
     (startsWith line ''data: '' \<and> trim (drop 6 line) \<noteq> [] \<and> trim (drop 6 line) \<noteq> ''[DONE]''
      \<and> JSON_parse pf (trim (drop 6 line)) = None)"

text \<open>The text of a stream made of complete lines.\<close>

definition join_lines :: "string list \<Rightarrow> string" where
  "join_lines ls = concat (map (\<lambda>l. l @ [CHR 0x0A]) ls)"

text \<open>The state of the page when it is mounted: the arguments of \<^verbatim>\<open>useState\<close>.\<close>

definition initial_state :: home_state where
  "initial_state =
     \<lparr>chatStarted = False, messages = [], isLoading = False, currentStatus = StatusText [],
      citations = Arr [], internalAnalysis = None, showInternalView = False,
      rateLimitTimer = None, ticketData = [], processedCount = 0, totalCount = 0,
      bulkResults = [], timers = {}\<rparr>"

text \<open>The closure of the handlers created by the render that shows the state \<open>s\<close>.\<close>

definition capture :: "home_state \<Rightarrow> closure" where
  "capture s = \<lparr>cap_isLoading = isLoading s, cap_rateLimitTimer = rateLimitTimer s\<rparr>"

subsection \<open>The shapes of a terminal payload\<close>

text \<open>
  What a terminal payload says, after the data model of the specification: an answer with its
  sources, or a routing message. The three shapes carry it as the specification and the
  branches of the reducer name the fields.
\<close>

datatype final_result = RagAnswer string "jsval list" | RoutingMessage string

fun answer_text :: "final_result \<Rightarrow> string" where
  "answer_text (RagAnswer answer sources) = answer"
| "answer_text (RoutingMessage message) = message"

fun answer_sources :: "final_result \<Rightarrow> jsval list" where
  "answer_sources (RagAnswer answer sources) = sources"
| "answer_sources (RoutingMessage message) = []"

fun final_response_of :: "final_result \<Rightarrow> jsval" where
  "final_response_of (RagAnswer answer sources) =
     Obj [(''response_type'', Str ''rag_answer''),
          (''rag_response'', Obj [(''answer'', Str answer), (''sources'', Arr sources)])]"
| "final_response_of (RoutingMessage message) =
     Obj [(''response_type'', Str ''routing_message''),
          (''routing_response'', Obj [(''message'', Str message)])]"

definition flattened :: "jsval \<Rightarrow> final_result \<Rightarrow> jsval" where
  "flattened classification a =
     Obj [(''internal_analysis'', Obj [(''classification'', classification)]),
          (''final_response'', final_response_of a)]"

definition wrapped :: "jsval \<Rightarrow> final_result \<Rightarrow> jsval" where
  "wrapped classification a =
     Obj [(''type'', Str ''final_result''), (''data'', flattened classification a)]"

definition legacy :: "final_result \<Rightarrow> jsval" where
  "legacy a =
     Obj [(''response'', Obj [(''data'', Str (answer_text a)), (''citations'', Arr (answer_sources a))])]"

subsection \<open>The rounds of a bulk run\<close>

text \<open>What \<^verbatim>\<open>processBatch\<close> returns for the batch of index \<open>i\<close>, and how many results it has.\<close>

definition batch_outcome :: "platform \<Rightarrow> network \<Rightarrow> jsval list list \<Rightarrow> nat \<Rightarrow> batch_result" where
  "batch_outcome pf net batches i = processBatch pf (batches ! i) i (net i (batches ! i))"

fun result_count :: "batch_result \<Rightarrow> nat" where
  "result_count (Results results i) = length results"
| "result_count (Failed err i) = 0"


fun failed_size :: "batch_result \<Rightarrow> nat \<Rightarrow> nat" where
  "failed_size (Results results i) n = 0"
| "failed_size (Failed err i) n = n"


text \<open>The state of a run started in \<open>s\<close> on \<open>data\<close> when \<open>j\<close> batches have been dealt with.\<close>

definition bulk_progress ::
  "platform \<Rightarrow> network \<Rightarrow> jsval list \<Rightarrow> home_state \<Rightarrow> nat \<Rightarrow> home_state" where
  "bulk_progress pf net data s j =
     fst (foldl (\<lambda>st i. bulk_step pf net (make_batches 0 data) i st)
            (s\<lparr>isLoading := True,
               currentStatus := StatusText ''Starting batch processing...'',
               bulkResults := [],
               processedCount := 0\<rparr>, [Status ''Starting batch processing...''])
            [0..<j])"

subsection \<open>Inputs of the examples\<close>

text \<open>
  A platform for the examples: its \<^verbatim>\<open>JSON.parse\<close> knows the texts below, and the other texts
  of the examples are not JSON. The examples do not reach the conversions of numbers.
\<close>

definition routed_text :: string where
  \<open>routed_text = ''{"internal_analysis":{"classification":{"priority":"P0"}},"final_response":{"response_type":"routing_message","routing_response":{"message":"Routed to support"}}}''\<close>

definition routed_wrapped_text :: string where
  \<open>routed_wrapped_text = ''{"type":"final_result","data":'' @ routed_text @ ''}''\<close>

definition routed_legacy_text :: string where
  \<open>routed_legacy_text = ''{"response":{"data":"Routed to support","citations":[]}}''\<close>

definition classified_text :: string where
  \<open>classified_text = ''{"type":"node_complete","node":"classify","message":"Completed classify"}''\<close>

definition ticket_file_text :: string where
  \<open>ticket_file_text = ''[{"id":"T1","body":"Cannot log in"}]''\<close>

definition example_parse :: "string \<Rightarrow> jsval option" where
  "example_parse =
     map_of
       [(routed_text, flattened (Obj [(''priority'', Str ''P0'')]) (RoutingMessage ''Routed to support'')),
        (routed_wrapped_text, wrapped (Obj [(''priority'', Str ''P0'')]) (RoutingMessage ''Routed to support'')),
        (routed_legacy_text, legacy (RoutingMessage ''Routed to support'')),
        (classified_text,
           Obj [(''type'', Str ''node_complete''), (''node'', Str ''classify''),
                (''message'', Str ''Completed classify'')]),
        (ticket_file_text, Arr [Obj [(''id'', Str ''T1''), (''body'', Str ''Cannot log in'')]]),
        (''{}'', Obj [])]"

definition example_platform :: platform where
  "example_platform =
     \<lparr>JSON_parse = example_parse, StringToNumber = (\<lambda>s. NaN), NumberToString = (\<lambda>n. ''NaN'')\<rparr>"

text \<open>Twelve tickets, and a network that fails on the second batch and otherwise returns one
  result for each ticket.\<close>

definition twelve_tickets :: "jsval list" where
  "twelve_tickets =
     map (\<lambda>i. Obj [(''id'', Str (''T'' @ show_nat i)), (''body'', Str ''Cannot log in'')]) [1..<13]"

definition fails_on_second :: network where
  "fails_on_second i batch =
     (if i = 1 then Rejected (JsError ''TypeError'' ''Failed to fetch'')
      else Stream [concat (map (\<lambda>ticket. ''data: {}'' @ [CHR 0x0A, CHR 0x0A]) batch)] None)"

text \<open>A network that answers every batch with two events.\<close>

definition two_events :: network where
  "two_events i batch = Stream [''data: {}'' @ [CHR 0x0A] @ ''data: {}'' @ [CHR 0x0A]] None"

text \<open>Two terminal payloads without an answer, and an answer with one source.\<close>

definition rag_without_response :: jsval where
  "rag_without_response =
     Obj [(''internal_analysis'', Obj [(''classification'', Obj [])]),
          (''final_response'', Obj [(''response_type'', Str ''rag_answer'')])]"

definition final_result_without_answer :: jsval where
  "final_result_without_answer =
     Obj [(''type'', Str ''final_result''),
          (''data'', Obj [(''final_response'', Obj [(''response_type'', Str ''rag_answer'')])])]"

definition snowflake_answer :: final_result where
  "snowflake_answer =
     RagAnswer ''Open the Snowflake connector page''
       [Obj [(''title'', Str ''Snowflake''), (''url'', Str ''https://docs.atlan.com/snowflake'')]]"

text \<open>The page after the upload of the twelve tickets.\<close>

definition uploaded_twelve :: home_state where
  "uploaded_twelve = initial_state\<lparr>ticketData := twelve_tickets, totalCount := 12\<rparr>"

text \<open>A file with one ticket.\<close>

definition one_ticket_file :: upload where
  "one_ticket_file = \<lparr>file_name = ''tickets.json'', file_size = 36, file_text = ticket_file_text\<rparr>"

section \<open>The status text of a progress event\<close>

lemma take2_drop2: "take 2 cs = [a, b] \<Longrightarrow> a # b # drop 2 cs = cs"
  by (metis append_take_drop_id append_Cons append_Nil)

lemma replace_dots_id: "replace_dots s = s"
proof (induction s rule: replace_dots.induct)
  case 1
  show ?case by simp
next
  case (2 c cs)
  show ?case
  proof (cases "c = CHR ''.'' \<and> take 2 cs = ''..''")
    case True
    then have "CHR ''.'' # CHR ''.'' # drop 2 cs = cs" by (simp add: take2_drop2)
    with 2 True show ?thesis by simp
  next
    case False
    with 2 show ?thesis by auto
  qed
qed

lemma statusMap_get_None:
  assumes "node \<notin> fst ` set statusMap" and "node \<notin> set object_prototype_names"
  shows "statusMap_get node = None"
proof -
  from assms(1) have "map_of statusMap node = None" by (simp add: map_of_eq_None_iff)
  with assms(2) show ?thesis by (simp add: statusMap_get_def)
qed

text \<open>
  What \<open>replace_first\<close> computes: nothing changes when the pattern matches nowhere, and
  otherwise the leftmost match, wherever it starts, is the one replaced.
\<close>

lemma replace_first_no_match:
  "(\<And>i. match_here w (drop i s) = None) \<Longrightarrow> replace_first w repl s = s"
proof (induction s)
  case Nil
  show ?case by simp
next
  case (Cons c cs)
  have "match_here w (c # cs) = None" using Cons.prems [of 0] by simp
  moreover have "replace_first w repl cs = cs"
  proof (rule Cons.IH)
    fix i show "match_here w (drop i cs) = None" using Cons.prems [of "Suc i"] by simp
  qed
  ultimately show ?case by simp
qed

lemma replace_first_leftmost:
  "n \<le> length s \<Longrightarrow> (\<And>i. i < n \<Longrightarrow> match_here w (drop i s) = None) \<Longrightarrow>
   match_here w (drop n s) = Some rest \<Longrightarrow> replace_first w repl s = take n s @ repl @ rest"
proof (induction n arbitrary: s)
  case 0
  then show ?case by (cases s) (auto simp: match_here_def)
next
  case (Suc n)
  then obtain c cs where s: "s = c # cs" by (cases s) auto
  have "match_here w (c # cs) = None" using Suc.prems(2) [of 0] s by simp
  moreover have "replace_first w repl cs = take n cs @ repl @ rest"
  proof (rule Suc.IH)
    show "n \<le> length cs" using Suc.prems(1) s by simp
    show "match_here w (drop n cs) = Some rest" using Suc.prems(3) s by simp
    fix i assume "i < n"
    then show "match_here w (drop i cs) = None" using Suc.prems(2) [of "Suc i"] s by simp
  qed
  ultimately show ?case using s by simp
qed

text \<open>
  C8, as the code has it. Each of the four nodes of the table gives its phrase, whatever the
  message. For any other node that is not the name of a member inherited from
  \<^verbatim>\<open>Object.prototype\<close>, the result is the message in which the leftmost ``Processing'' followed
  by white space (in either case, anywhere in the message) is removed and then the leftmost
  ``Completed'' followed by white space is replaced by ``Finished ''. The function returns a
  value for every pair of strings.
\<close>

theorem status_message_table_and_cleanup:
  "getFriendlyStatusMessage ''classify'' message = StatusText ''Understanding your question...''
   \<and> getFriendlyStatusMessage ''agent'' message = StatusText ''Preparing response...''
   \<and> getFriendlyStatusMessage ''document_search'' message = StatusText ''Searching knowledge base...''
   \<and> getFriendlyStatusMessage ''finalize_response'' message = StatusText ''Finalizing answer...''
   \<and> (node \<notin> fst ` set statusMap \<and> node \<notin> set object_prototype_names \<longrightarrow>
        getFriendlyStatusMessage node message =
          StatusText (replace_first ''Completed'' ''Finished '' (replace_first ''Processing'' [] message)))"
proof -
  have tab: "getFriendlyStatusMessage ''classify'' message = StatusText ''Understanding your question...''"
    "getFriendlyStatusMessage ''agent'' message = StatusText ''Preparing response...''"
    "getFriendlyStatusMessage ''document_search'' message = StatusText ''Searching knowledge base...''"
    "getFriendlyStatusMessage ''finalize_response'' message = StatusText ''Finalizing answer...''"
    by (simp_all add: getFriendlyStatusMessage_def statusMap_get_def statusMap_def)
  have other: "getFriendlyStatusMessage node message =
          StatusText (replace_first ''Completed'' ''Finished '' (replace_first ''Processing'' [] message))"
    if "node \<notin> fst ` set statusMap" "node \<notin> set object_prototype_names"
    using statusMap_get_None [OF that]
    by (simp add: getFriendlyStatusMessage_def cleanup_def replace_dots_id)
  from tab other show ?thesis by blast
qed

theorem status_message_table_and_cleanup_witness:
  "''search'' \<notin> fst ` set statusMap \<and> ''search'' \<notin> set object_prototype_names
   \<and> getFriendlyStatusMessage ''search'' ''Now processing   docs, Completed  2 of 3...''
       = StatusText ''Now docs, Finished 2 of 3...''"
proof -
  have h: "''search'' \<notin> fst ` set statusMap \<and> ''search'' \<notin> set object_prototype_names"
    by code_simp
  have e: "replace_first ''Completed'' ''Finished ''
             (replace_first ''Processing'' [] ''Now processing   docs, Completed  2 of 3...'')
           = ''Now docs, Finished 2 of 3...''"
    by code_simp
  from status_message_table_and_cleanup
          [of "''Now processing   docs, Completed  2 of 3...''" "''search''"] h
  have "getFriendlyStatusMessage ''search'' ''Now processing   docs, Completed  2 of 3...''
        = StatusText (replace_first ''Completed'' ''Finished ''
             (replace_first ''Processing'' [] ''Now processing   docs, Completed  2 of 3...''))"
    by blast
  with h e show ?thesis by (simp only: simp_thms)
qed

text \<open>
  C8 as the specification words it fails: ``search'' is not in the table, and the message
  ``Completed search'' comes back as ``Finished search'', not with the verb stripped.
\<close>

theorem status_message_completed_counterexample:
  "map_of statusMap ''search'' = None
   \<and> getFriendlyStatusMessage ''search'' ''Completed search'' = StatusText ''Finished search''
   \<and> spec_cleanup ''Completed search'' = ''search''
   \<and> getFriendlyStatusMessage ''search'' ''Completed search''
        \<noteq> StatusText (spec_cleanup ''Completed search'')"
  by code_simp

text \<open>A node named like an inherited member gets that member, not a text.\<close>

lemma status_message_inherited:
  "getFriendlyStatusMessage ''toString'' message = Inherited ''toString''"
proof -
  have "statusMap_get ''toString'' = Some (Inherited ''toString'')" by code_simp
  then show ?thesis by (simp add: getFriendlyStatusMessage_def)
qed

section \<open>Reassembly of the lines of a chat stream\<close>

lemma split_lines_ne [simp]: "split_lines s \<noteq> []"
  by (induction s) (auto split: list.splits)

lemma split_lines_append:
  "split_lines (a @ b) = butlast (split_lines a) @ split_lines (last (split_lines a) @ b)"
proof (induction a)
  case Nil
  show ?case by simp
next
  case (Cons c cs)
  show ?case
  proof (cases "c = CHR 0x0A")
    case True
    with Cons show ?thesis by simp
  next
    case False
    obtain l0 ls0 where sp: "split_lines cs = l0 # ls0"
      by (cases "split_lines cs") auto
    show ?thesis
    proof (cases ls0)
      case Nil
      with sp Cons False show ?thesis by simp
    next
      case (Cons l1 ls1)
      with sp Cons.IH False show ?thesis by (simp split: list.splits)
    qed
  qed
qed

lemma no_lf_split: "CHR 0x0A \<notin> set b \<Longrightarrow> split_lines b = [b]"
  by (induction b) auto

lemma last_split_no_lf: "CHR 0x0A \<notin> set (last (split_lines s))"
  by (induction s) (auto split: list.splits)

lemma split_lines_line: "CHR 0x0A \<notin> set l \<Longrightarrow> split_lines (l @ CHR 0x0A # r) = l # split_lines r"
  by (induction l) auto

lemma split_lines_join:
  "\<forall>l\<in>set ls. CHR 0x0A \<notin> set l \<Longrightarrow> CHR 0x0A \<notin> set rest \<Longrightarrow>
   split_lines (join_lines ls @ rest) = ls @ [rest]"
proof (induction ls)
  case Nil
  then show ?case by (simp add: join_lines_def no_lf_split)
next
  case (Cons l ls)
  then have "split_lines (join_lines ls @ rest) = ls @ [rest]" by simp
  moreover have "join_lines (l # ls) @ rest = l @ CHR 0x0A # (join_lines ls @ rest)"
    by (simp add: join_lines_def)
  ultimately show ?case using Cons.prems(1) by (simp add: split_lines_line)
qed

lemma read_chunks_concat:
  "CHR 0x0A \<notin> set buffer \<Longrightarrow>
   read_chunks pf env s buffer chunks =
     (foldl (process_line pf env) s (butlast (split_lines (buffer @ concat chunks))),
      last (split_lines (buffer @ concat chunks)))"
proof (induction chunks arbitrary: s buffer)
  case Nil
  then show ?case by (simp add: no_lf_split)
next
  case (Cons c cs)
  have "split_lines (buffer @ c @ concat cs)
        = butlast (split_lines (buffer @ c)) @ split_lines (last (split_lines (buffer @ c)) @ concat cs)"
    using split_lines_append [of "buffer @ c" "concat cs"] by simp
  then show ?case
    using Cons.IH [OF last_split_no_lf, of _ "buffer @ c"]
    by (simp add: Let_def butlast_append last_append)
qed

lemma read_loop_concat:
  "read_loop pf env s chunks =
     flush_buffer pf env (foldl (process_line pf env) s (butlast (split_lines (concat chunks))))
       (last (split_lines (concat chunks)))"
  by (simp add: read_loop_def read_chunks_concat)

text \<open>
  C1. However the text of a stream is cut into chunks, the read loop ends in the state it
  reaches on the whole text as one chunk, and so does the turn. The lines it processes are
  the complete lines of the text, in order, and the piece after the last line feed is the
  buffer that is left for the end of the stream.
\<close>

theorem read_loop_chunking:
  "read_loop pf env s chunks = read_loop pf env s [concat chunks]
   \<and> read_chunks pf env s [] chunks =
       (foldl (process_line pf env) s (butlast (split_lines (concat chunks))),
        last (split_lines (concat chunks)))
   \<and> handleSendMessage pf env wd hard message (Stream chunks None) s =
       handleSendMessage pf env wd hard message (Stream [concat chunks] None) s"
proof -
  have a: "read_loop pf env s' chunks = read_loop pf env s' [concat chunks]" for s'
    by (simp add: read_loop_concat)
  have b: "read_chunks pf env s [] chunks =
       (foldl (process_line pf env) s (butlast (split_lines (concat chunks))),
        last (split_lines (concat chunks)))"
    by (simp add: read_chunks_concat)
  have c: "handleSendMessage pf env wd hard message (Stream chunks None) s =
       handleSendMessage pf env wd hard message (Stream [concat chunks] None) s"
    unfolding handleSendMessage_def after_start_def Let_def response.case option.case
    by (simp only: a [symmetric])
  from a b c show ?thesis by blast
qed

theorem read_loop_chunking_witness:
  "read_loop example_platform (capture initial_state) initial_state
     [''data: [DO'', ''NE]'' @ [CHR 0x0A] @ ''data: {broken'' @ [CHR 0x0A] @ ''da'', ''ta: {}'']
   = read_loop example_platform (capture initial_state) initial_state
       [''data: [DONE]'' @ [CHR 0x0A] @ ''data: {broken'' @ [CHR 0x0A] @ ''data: {}'']"
proof -
  have c: "concat [''data: [DO'', ''NE]'' @ [CHR 0x0A] @ ''data: {broken'' @ [CHR 0x0A] @ ''da'', ''ta: {}'']
           = ''data: [DONE]'' @ [CHR 0x0A] @ ''data: {broken'' @ [CHR 0x0A] @ ''data: {}''"
    by code_simp
  show ?thesis
    using read_loop_chunking [THEN conjunct1, of example_platform "capture initial_state" initial_state
        "[''data: [DO'', ''NE]'' @ [CHR 0x0A] @ ''data: {broken'' @ [CHR 0x0A] @ ''da'', ''ta: {}'']"]
    unfolding c .
qed

section \<open>Terminal payloads in the read loop\<close>

lemma clear_rate_limit_fields [simp]:
  "messages (clear_rate_limit env s) = messages s"
  "citations (clear_rate_limit env s) = citations s"
  "isLoading (clear_rate_limit env s) = isLoading s"
  "currentStatus (clear_rate_limit env s) = currentStatus s"
  "internalAnalysis (clear_rate_limit env s) = internalAnalysis s"
  by (simp_all add: clear_rate_limit_def split: option.splits)

lemma store_analysis_fields [simp]:
  "messages (store_analysis d s) = messages s"
  "citations (store_analysis d s) = citations s"
  "isLoading (store_analysis d s) = isLoading s"
  "currentStatus (store_analysis d s) = currentStatus s"
  by (simp_all add: store_analysis_def)

lemma deliver_falsy: "\<not> truthy finalContent \<Longrightarrow> deliver pf s finalContent responseSources = Inr s"
  by (simp add: deliver_def)

lemma deliver_text:
  "t \<noteq> [] \<Longrightarrow> deliver pf s (Str t) (Arr srcs) =
     Inr (if srcs = [] then s\<lparr>messages := messages s @ [AssistantMessage (Str t)]\<rparr>
          else s\<lparr>messages := messages s @ [AssistantMessage (Str t)], citations := Arr srcs\<rparr>)"
  by (simp add: deliver_def Let_def)

text \<open>
  C10. A payload taken by the flattened branch or by the branch of the typed final events,
  whose extracted content is empty, leaves the list of messages as it was; the loading state
  and the status text are cleared.
\<close>

theorem empty_content_appends_nothing:
  assumes "(truthy (js_get parsed ''internal_analysis'') \<and> truthy (js_get parsed ''final_response'')
            \<and> \<not> truthy (fst (extract_flat (js_get parsed ''final_response''))))
         \<or> (\<not> (truthy (js_get parsed ''internal_analysis'') \<and> truthy (js_get parsed ''final_response''))
            \<and> (js_get parsed ''type'' = Str ''final_response'' \<or> js_get parsed ''type'' = Str ''final_result'')
            \<and> \<not> truthy (fst (extract_typed parsed)))"
  shows "messages (handle_parsed pf env s parsed) = messages s
         \<and> isLoading (handle_parsed pf env s parsed) = False
         \<and> currentStatus (handle_parsed pf env s parsed) = StatusText []"
proof -
  have nn: "\<not> nullish parsed" using assms by (cases parsed) auto
  from assms consider
      (flat) "truthy (js_get parsed ''internal_analysis'')" "truthy (js_get parsed ''final_response'')"
        "\<not> truthy (fst (extract_flat (js_get parsed ''final_response'')))"
    | (typed) "\<not> (truthy (js_get parsed ''internal_analysis'') \<and> truthy (js_get parsed ''final_response''))"
        "js_get parsed ''type'' = Str ''final_response'' \<or> js_get parsed ''type'' = Str ''final_result''"
        "\<not> truthy (fst (extract_typed parsed))"
    by blast
  then show ?thesis
  proof cases
    case flat
    obtain c srcs where x: "extract_flat (js_get parsed ''final_response'') = (c, srcs)"
      by (cases "extract_flat (js_get parsed ''final_response'')") auto
    with flat(3) have "\<not> truthy c" by simp
    with nn flat(1,2) x show ?thesis by (simp add: handle_parsed_def deliver_falsy)
  next
    case typed
    obtain c srcs where x: "extract_typed parsed = (c, srcs)"
      by (cases "extract_typed parsed") auto
    with typed(3) have "\<not> truthy c" by simp
    with nn typed(1,2) x show ?thesis by (auto simp: handle_parsed_def deliver_falsy Let_def)
  qed
qed

theorem empty_content_appends_nothing_witness:
  "truthy (js_get rag_without_response ''internal_analysis'')
   \<and> truthy (js_get rag_without_response ''final_response'')
   \<and> \<not> truthy (fst (extract_flat (js_get rag_without_response ''final_response'')))
   \<and> js_get final_result_without_answer ''type'' = Str ''final_result''
   \<and> \<not> truthy (fst (extract_typed final_result_without_answer))
   \<and> messages (handle_parsed example_platform (capture initial_state)
        (start_turn (capture initial_state) 1 ''hi'' initial_state) rag_without_response)
       = [UserMessage ''hi'']
   \<and> messages (handle_parsed example_platform (capture initial_state)
        (start_turn (capture initial_state) 1 ''hi'' initial_state) final_result_without_answer)
       = [UserMessage ''hi'']
   \<and> isLoading (handle_parsed example_platform (capture initial_state)
        (start_turn (capture initial_state) 1 ''hi'' initial_state) rag_without_response) = False
   \<and> isLoading (handle_parsed example_platform (capture initial_state)
        (start_turn (capture initial_state) 1 ''hi'' initial_state) final_result_without_answer) = False"
proof -
  have h1: "truthy (js_get rag_without_response ''internal_analysis'')
     \<and> truthy (js_get rag_without_response ''final_response'')
     \<and> \<not> truthy (fst (extract_flat (js_get rag_without_response ''final_response'')))"
    by code_simp
  have h2: "\<not> (truthy (js_get final_result_without_answer ''internal_analysis'')
                \<and> truthy (js_get final_result_without_answer ''final_response''))
     \<and> js_get final_result_without_answer ''type'' = Str ''final_result''
     \<and> \<not> truthy (fst (extract_typed final_result_without_answer))"
    by code_simp
  have m: "messages (start_turn (capture initial_state) 1 ''hi'' initial_state) = [UserMessage ''hi'']"
    by code_simp
  note r1 = empty_content_appends_nothing [of rag_without_response example_platform
      "capture initial_state" "start_turn (capture initial_state) 1 ''hi'' initial_state"]
  note r2 = empty_content_appends_nothing [of final_result_without_answer example_platform
      "capture initial_state" "start_turn (capture initial_state) 1 ''hi'' initial_state"]
  from r1 h1 r2 h2 m show ?thesis by (simp only: simp_thms)
qed

text \<open>
  C2. From a state without citations, which is the state of a turn until a terminal payload
  arrives (\<open>start_turn\<close> empties them), the three shapes of one answer leave the same list
  of messages and the same citations: the text is appended unless it is empty, and the
  citations are the sources of a delivered answer.
\<close>

theorem terminal_shapes_agree:
  assumes "citations s = Arr []"
    and "p = flattened c a \<or> p = wrapped c a \<or> p = legacy a"
  shows "messages (handle_parsed pf env s p) =
           messages s @ (if answer_text a = [] then [] else [AssistantMessage (Str (answer_text a))])
         \<and> citations (handle_parsed pf env s p) =
           (if answer_text a = [] then Arr [] else Arr (answer_sources a))"
proof (cases a)
  case (RagAnswer t srcs)
  from assms(2) show ?thesis
  proof (elim disjE)
    assume "p = flattened c a"
    with RagAnswer assms(1) show ?thesis
      by (cases "t = []"; cases "answer_sources a = []")
         (simp_all add: handle_parsed_def flattened_def extract_flat_def js_or_def
            deliver_falsy deliver_text Let_def)
  next
    assume "p = wrapped c a"
    with RagAnswer assms(1) show ?thesis
      by (cases "t = []"; cases "answer_sources a = []")
         (simp_all add: handle_parsed_def wrapped_def flattened_def extract_typed_def
            extract_wrapped_def js_or_def deliver_falsy deliver_text Let_def)
  next
    assume "p = legacy a"
    with RagAnswer assms(1) show ?thesis
      by (cases "t = []") (simp_all add: handle_parsed_def legacy_def Let_def)
  qed
next
  case (RoutingMessage t)
  from assms(2) show ?thesis
  proof (elim disjE)
    assume "p = flattened c a"
    with RoutingMessage assms(1) show ?thesis
      by (cases "t = []"; cases "answer_sources a = []")
         (simp_all add: handle_parsed_def flattened_def extract_flat_def js_or_def
            deliver_falsy deliver_text Let_def)
  next
    assume "p = wrapped c a"
    with RoutingMessage assms(1) show ?thesis
      by (cases "t = []"; cases "answer_sources a = []")
         (simp_all add: handle_parsed_def wrapped_def flattened_def extract_typed_def
            extract_wrapped_def js_or_def deliver_falsy deliver_text Let_def)
  next
    assume "p = legacy a"
    with RoutingMessage assms(1) show ?thesis
      by (cases "t = []") (simp_all add: handle_parsed_def legacy_def Let_def)
  qed
qed

theorem terminal_shapes_agree_witness:
  "citations initial_state = Arr []
   \<and> messages (handle_parsed example_platform (capture initial_state) initial_state
        (flattened (Obj []) snowflake_answer))
       = [AssistantMessage (Str ''Open the Snowflake connector page'')]
   \<and> messages (handle_parsed example_platform (capture initial_state) initial_state
        (wrapped (Obj []) snowflake_answer))
       = [AssistantMessage (Str ''Open the Snowflake connector page'')]
   \<and> messages (handle_parsed example_platform (capture initial_state) initial_state
        (legacy snowflake_answer))
       = [AssistantMessage (Str ''Open the Snowflake connector page'')]
   \<and> citations (handle_parsed example_platform (capture initial_state) initial_state
        (flattened (Obj []) snowflake_answer))
       = Arr [Obj [(''title'', Str ''Snowflake''), (''url'', Str ''https://docs.atlan.com/snowflake'')]]
   \<and> citations (handle_parsed example_platform (capture initial_state) initial_state
        (wrapped (Obj []) snowflake_answer))
       = Arr [Obj [(''title'', Str ''Snowflake''), (''url'', Str ''https://docs.atlan.com/snowflake'')]]
   \<and> citations (handle_parsed example_platform (capture initial_state) initial_state
        (legacy snowflake_answer))
       = Arr [Obj [(''title'', Str ''Snowflake''), (''url'', Str ''https://docs.atlan.com/snowflake'')]]"
proof -
  have h: "citations initial_state = Arr []" by code_simp
  have e1: "messages initial_state @ (if answer_text snowflake_answer = [] then []
               else [AssistantMessage (Str (answer_text snowflake_answer))])
            = [AssistantMessage (Str ''Open the Snowflake connector page'')]"
    by code_simp
  have e2: "(if answer_text snowflake_answer = [] then Arr [] else Arr (answer_sources snowflake_answer))
            = Arr [Obj [(''title'', Str ''Snowflake''), (''url'', Str ''https://docs.atlan.com/snowflake'')]]"
    by code_simp
  note r = terminal_shapes_agree [where s = initial_state and c = "Obj []" and a = snowflake_answer
      and pf = example_platform and env = "capture initial_state", OF h]
  have r1: "messages (handle_parsed example_platform (capture initial_state) initial_state
                (flattened (Obj []) snowflake_answer))
            = [AssistantMessage (Str ''Open the Snowflake connector page'')]
          \<and> citations (handle_parsed example_platform (capture initial_state) initial_state
                (flattened (Obj []) snowflake_answer))
            = Arr [Obj [(''title'', Str ''Snowflake''), (''url'', Str ''https://docs.atlan.com/snowflake'')]]"
    using r [of "flattened (Obj []) snowflake_answer"] unfolding e1 e2 by blast
  have r2: "messages (handle_parsed example_platform (capture initial_state) initial_state
                (wrapped (Obj []) snowflake_answer))
            = [AssistantMessage (Str ''Open the Snowflake connector page'')]
          \<and> citations (handle_parsed example_platform (capture initial_state) initial_state
                (wrapped (Obj []) snowflake_answer))
            = Arr [Obj [(''title'', Str ''Snowflake''), (''url'', Str ''https://docs.atlan.com/snowflake'')]]"
    using r [of "wrapped (Obj []) snowflake_answer"] unfolding e1 e2 by blast
  have r3: "messages (handle_parsed example_platform (capture initial_state) initial_state
                (legacy snowflake_answer))
            = [AssistantMessage (Str ''Open the Snowflake connector page'')]
          \<and> citations (handle_parsed example_platform (capture initial_state) initial_state
                (legacy snowflake_answer))
            = Arr [Obj [(''title'', Str ''Snowflake''), (''url'', Str ''https://docs.atlan.com/snowflake'')]]"
    using r [of "legacy snowflake_answer"] unfolding e1 e2 by blast
  from h r1 r2 r3 show ?thesis by blast
qed

lemma start_turn_citations: "citations (start_turn env wd message s) = Arr []"
  by (simp add: start_turn_def Let_def split: option.splits)

section \<open>The completion sentinel\<close>

lemma read_loop_first_line:
  assumes "CHR 0x0A \<notin> set line"
  shows "read_loop pf env s ((line @ CHR 0x0A # rest) # chunks)
         = read_loop pf env (process_line pf env s line) (rest # chunks)"
proof -
  have "split_lines (line @ CHR 0x0A # rest @ concat chunks) = line # split_lines (rest @ concat chunks)"
    using assms by (rule split_lines_line)
  then show ?thesis by (simp add: read_loop_concat)
qed

text \<open>
  C5, as the code has it. A complete line whose payload is the sentinel clears the loading
  state and the status text and changes neither the messages, nor the citations, nor the
  stored classification; what it does is the same for every \<^verbatim>\<open>JSON.parse\<close>, which is not
  called; and the loop goes on with the rest of the text and the chunks that follow.
\<close>

theorem done_sentinel_line:
  assumes "startsWith line ''data: ''" and "trim (drop 6 line) = ''[DONE]''"
    and "CHR 0x0A \<notin> set line"
  shows "isLoading (process_line pf env s line) = False
       \<and> currentStatus (process_line pf env s line) = StatusText []
       \<and> messages (process_line pf env s line) = messages s
       \<and> citations (process_line pf env s line) = citations s
       \<and> internalAnalysis (process_line pf env s line) = internalAnalysis s
       \<and> process_line pf' env s line = process_line pf env s line
       \<and> read_loop pf env s ((line @ CHR 0x0A # rest) # chunks)
           = read_loop pf env (process_line pf env s line) (rest # chunks)"
  using assms read_loop_first_line [OF assms(3)] by (simp add: process_line_def)

theorem done_sentinel_line_witness:
  "startsWith ''data: [DONE]  '' ''data: '' \<and> trim (drop 6 ''data: [DONE]  '') = ''[DONE]''
   \<and> CHR 0x0A \<notin> set ''data: [DONE]  ''
   \<and> isLoading (process_line example_platform (capture initial_state)
        (start_turn (capture initial_state) 1 ''hi'' initial_state) ''data: [DONE]  '') = False
   \<and> messages (process_line example_platform (capture initial_state)
        (start_turn (capture initial_state) 1 ''hi'' initial_state) ''data: [DONE]  '')
       = [UserMessage ''hi'']"
proof -
  have h: "startsWith ''data: [DONE]  '' ''data: '' \<and> trim (drop 6 ''data: [DONE]  '') = ''[DONE]''
     \<and> CHR 0x0A \<notin> set ''data: [DONE]  ''"
    by code_simp
  have m: "messages (start_turn (capture initial_state) 1 ''hi'' initial_state) = [UserMessage ''hi'']"
    by code_simp
  from h done_sentinel_line [of "''data: [DONE]  ''" example_platform "capture initial_state"
      "start_turn (capture initial_state) 1 ''hi'' initial_state"]
  have "isLoading (process_line example_platform (capture initial_state)
          (start_turn (capture initial_state) 1 ''hi'' initial_state) ''data: [DONE]  '') = False
     \<and> messages (process_line example_platform (capture initial_state)
          (start_turn (capture initial_state) 1 ''hi'' initial_state) ''data: [DONE]  '')
         = messages (start_turn (capture initial_state) 1 ''hi'' initial_state)"
    by blast
  with h m show ?thesis by (simp only: simp_thms)
qed

text \<open>
  C5 as stated fails: the lines after the sentinel are still read and processed. Here a
  terminal payload that follows the sentinel is delivered.
\<close>

theorem done_sentinel_continues_counterexample:
  "messages (read_loop example_platform (capture initial_state) initial_state
      [''data: [DONE]'' @ [CHR 0x0A] @ ''data: '' @ routed_text @ [CHR 0x0A]])
     = [AssistantMessage (Str ''Routed to support'')]
   \<and> messages (read_loop example_platform (capture initial_state) initial_state
      [''data: [DONE]'' @ [CHR 0x0A]])
     = []"
  by code_simp

text \<open>The sentinel left in the buffer at the end of the stream is not parsed either.\<close>

lemma done_sentinel_flush:
  "trim (drop 6 (trim buffer)) = ''[DONE]'' \<Longrightarrow>
   flush_buffer pf' env s buffer = flush_buffer pf env s buffer"
  by (simp add: flush_buffer_def Let_def)

section \<open>The end of the stream\<close>

text \<open>
  The last pass looks for the wrapped shape only: a flattened or a legacy payload left in the
  buffer changes nothing, a wrapped one is delivered.
\<close>

lemma flush_parsed_flattened: "flush_parsed pf s (flattened c a) = s"
  by (simp add: flush_parsed_def flattened_def)

lemma flush_parsed_legacy: "flush_parsed pf s (legacy a) = s"
  by (simp add: flush_parsed_def legacy_def)

lemma flush_parsed_wrapped:
  "answer_text a \<noteq> [] \<Longrightarrow>
   messages (flush_parsed pf s (wrapped c a)) = messages s @ [AssistantMessage (Str (answer_text a))]"
  by (cases a; cases "answer_sources a = []")
     (simp_all add: flush_parsed_def wrapped_def flattened_def extract_wrapped_def js_or_def
        deliver_text Let_def)

text \<open>
  C6 on the code: a stream whose only chunk is a flattened terminal payload without a final
  line feed ends with no assistant message, and so does one with the legacy shape; the same
  payload followed by a line feed, or in the wrapped shape, is delivered.
\<close>

theorem trailing_payload_dropped:
  "messages (read_loop example_platform (capture initial_state) initial_state
      [''data: '' @ routed_text]) = []
   \<and> messages (read_loop example_platform (capture initial_state) initial_state
      [''data: '' @ routed_legacy_text]) = []
   \<and> messages (read_loop example_platform (capture initial_state) initial_state
      [''data: '' @ routed_text @ [CHR 0x0A]]) = [AssistantMessage (Str ''Routed to support'')]
   \<and> messages (read_loop example_platform (capture initial_state) initial_state
      [''data: '' @ routed_wrapped_text]) = [AssistantMessage (Str ''Routed to support'')]"
  by code_simp

section \<open>Lines that fail to parse\<close>

lemma process_line_malformed: "malformed pf l \<Longrightarrow> process_line pf env s l = s"
  by (simp add: malformed_def process_line_def Let_def)

lemma foldl_filter_skip:
  "(\<And>s x. \<not> P x \<Longrightarrow> f s x = s) \<Longrightarrow> foldl f s (filter P xs) = foldl f s xs"
  by (induction xs arbitrary: s) auto

lemma concat_map_filter_skip:
  "(\<And>x. \<not> P x \<Longrightarrow> g x = []) \<Longrightarrow> concat (map g (filter P xs)) = concat (map g xs)"
  by (induction xs) auto

lemma flush_buffer_malformed:
  assumes "malformed pf (trim b)"
  shows "flush_buffer pf env s b = flush_buffer pf env s []"
proof -
  from assms have "trim b \<noteq> []" by (auto simp: malformed_def startsWith_def)
  moreover have "trim [] = []" by (simp add: trim_def)
  ultimately show ?thesis using assms by (simp add: flush_buffer_def malformed_def Let_def startsWith_def)
qed

text \<open>
  C9. A data line that fails to parse leaves the state as it was, in the loop and at the end of
  the stream. Taking every such line out of a stream of complete lines (followed by any
  unfinished piece) does not change the state in which the read loop ends, however the two
  texts are cut into chunks; and it does not change the results that \<^verbatim>\<open>processBatch\<close> collects
  from a chunk.
\<close>

theorem malformed_lines_skipped:
  assumes "list_all (\<lambda>l. CHR 0x0A \<notin> set l) ls" and "CHR 0x0A \<notin> set rest"
    and "concat chunks = join_lines ls @ rest"
    and "concat chunks' = join_lines (filter (\<lambda>l. \<not> malformed pf l) ls) @ rest"
  shows "read_loop pf env s chunks = read_loop pf env s chunks'
       \<and> (malformed pf l \<longrightarrow> process_line pf env s l = s)
       \<and> (malformed pf (trim b) \<longrightarrow> flush_buffer pf env s b = flush_buffer pf env s [])
       \<and> processBatch pf batch i (Stream [join_lines ls @ rest] None)
           = processBatch pf batch i
               (Stream [join_lines (filter (\<lambda>l. \<not> malformed pf l) ls) @ rest] None)"
proof -
  let ?keep = "filter (\<lambda>l. \<not> malformed pf l) ls"
  have nl: "\<forall>l\<in>set ls. CHR 0x0A \<notin> set l" using assms(1) by (simp add: list_all_iff)
  then have nl': "\<forall>l\<in>set ?keep. CHR 0x0A \<notin> set l" by simp
  have sp: "split_lines (join_lines ls @ rest) = ls @ [rest]"
    using nl assms(2) by (rule split_lines_join)
  have sp': "split_lines (join_lines ?keep @ rest) = ?keep @ [rest]"
    using nl' assms(2) by (rule split_lines_join)
  have "foldl (process_line pf env) s ?keep = foldl (process_line pf env) s ls"
    by (rule foldl_filter_skip) (simp add: process_line_malformed)
  then have a: "read_loop pf env s chunks = read_loop pf env s chunks'"
    by (simp add: read_loop_concat assms(3,4) sp sp')
  have g: "concat (map (\<lambda>line. if startsWith line ''data: '' then
                (let data = trim (drop 6 line) in
                 if data \<noteq> [] then (case JSON_parse pf data of Some parsed \<Rightarrow> [parsed] | None \<Rightarrow> [])
                 else [])
              else []) ?keep)
         = concat (map (\<lambda>line. if startsWith line ''data: '' then
                (let data = trim (drop 6 line) in
                 if data \<noteq> [] then (case JSON_parse pf data of Some parsed \<Rightarrow> [parsed] | None \<Rightarrow> [])
                 else [])
              else []) ls)"
    by (rule concat_map_filter_skip) (simp add: malformed_def Let_def)
  have d: "processBatch pf batch i (Stream [join_lines ls @ rest] None)
           = processBatch pf batch i (Stream [join_lines ?keep @ rest] None)"
    by (simp add: processBatch_def chunk_results_def sp sp' g del: filter.simps)
  from a d show ?thesis
    using process_line_malformed flush_buffer_malformed by blast
qed

theorem malformed_lines_skipped_witness:
  "malformed example_platform ''data: {broken''
   \<and> read_loop example_platform (capture initial_state) initial_state
       [''data: '' @ classified_text @ [CHR 0x0A] @ ''data: {bro'',
        ''ken'' @ [CHR 0x0A] @ ''data: '' @ routed_text @ [CHR 0x0A]]
     = read_loop example_platform (capture initial_state) initial_state
       [''data: '' @ classified_text @ [CHR 0x0A] @ ''data: '' @ routed_text @ [CHR 0x0A]]
   \<and> messages (read_loop example_platform (capture initial_state) initial_state
       [''data: '' @ classified_text @ [CHR 0x0A] @ ''data: '' @ routed_text @ [CHR 0x0A]])
     = [AssistantMessage (Str ''Routed to support'')]"
proof -
  have h: "list_all (\<lambda>l. CHR 0x0A \<notin> set l)
             [''data: '' @ classified_text, ''data: {broken'', ''data: '' @ routed_text]
     \<and> CHR 0x0A \<notin> set ''''
     \<and> concat [''data: '' @ classified_text @ [CHR 0x0A] @ ''data: {bro'',
                ''ken'' @ [CHR 0x0A] @ ''data: '' @ routed_text @ [CHR 0x0A]]
         = join_lines [''data: '' @ classified_text, ''data: {broken'', ''data: '' @ routed_text] @ ''''
     \<and> concat [''data: '' @ classified_text @ [CHR 0x0A] @ ''data: '' @ routed_text @ [CHR 0x0A]]
         = join_lines (filter (\<lambda>l. \<not> malformed example_platform l)
             [''data: '' @ classified_text, ''data: {broken'', ''data: '' @ routed_text]) @ ''''"
    by code_simp
  have m: "malformed example_platform ''data: {broken''
     \<and> messages (read_loop example_platform (capture initial_state) initial_state
       [''data: '' @ classified_text @ [CHR 0x0A] @ ''data: '' @ routed_text @ [CHR 0x0A]])
       = [AssistantMessage (Str ''Routed to support'')]"
    by code_simp
  from h malformed_lines_skipped
     [of "[''data: '' @ classified_text, ''data: {broken'', ''data: '' @ routed_text]" "''''"
        "[''data: '' @ classified_text @ [CHR 0x0A] @ ''data: {bro'',
          ''ken'' @ [CHR 0x0A] @ ''data: '' @ routed_text @ [CHR 0x0A]]"
        "[''data: '' @ classified_text @ [CHR 0x0A] @ ''data: '' @ routed_text @ [CHR 0x0A]]"
        example_platform "capture initial_state" initial_state]
  have "read_loop example_platform (capture initial_state) initial_state
       [''data: '' @ classified_text @ [CHR 0x0A] @ ''data: {bro'',
        ''ken'' @ [CHR 0x0A] @ ''data: '' @ routed_text @ [CHR 0x0A]]
     = read_loop example_platform (capture initial_state) initial_state
       [''data: '' @ classified_text @ [CHR 0x0A] @ ''data: '' @ routed_text @ [CHR 0x0A]]"
    by blast
  with m show ?thesis by blast
qed

text \<open>
  Unlike the chat loop, \<^verbatim>\<open>processBatch\<close> splits each chunk on its own: a result whose line is
  cut by a chunk boundary is lost.
\<close>

lemma processBatch_cut_line:
  "processBatch example_platform [] 0 (Stream [''data: {}'' @ [CHR 0x0A]] None) = Results [Obj []] 0
   \<and> processBatch example_platform [] 0 (Stream [''data: {'', ''}'' @ [CHR 0x0A]] None) = Results [] 0"
  by code_simp

section \<open>The watchdog\<close>

lemma watchdog_idle_closure:
  "\<not> cap_isLoading env \<Longrightarrow>
   messages (watchdog env wd s) = messages s \<and> isLoading (watchdog env wd s) = isLoading s"
  by (simp add: watchdog_def Let_def)

text \<open>
  C4 on the code: a turn started from the idle page. The callback of the watchdog tests the
  \<^verbatim>\<open>isLoading\<close> of the render that created the handler, which is false, so when it runs it
  appends nothing and the loading state stays set. Its timer is still pending after the
  response has arrived, since the handle that is cleared is the one of the closure.
\<close>

theorem watchdog_stale_closure:
  "messages (watchdog (capture initial_state) 1
      (start_turn (capture initial_state) 1 ''How to setup Snowflake connector?'' initial_state))
     = [UserMessage ''How to setup Snowflake connector?'']
   \<and> isLoading (watchdog (capture initial_state) 1
      (start_turn (capture initial_state) 1 ''How to setup Snowflake connector?'' initial_state))
   \<and> 1 \<in> timers (start_turn (capture initial_state) 1 ''How to setup Snowflake connector?'' initial_state)
   \<and> 1 \<in> timers (handleSendMessage example_platform (capture initial_state) 1 2
        ''How to setup Snowflake connector?''
        (Stream [''data: '' @ classified_text @ [CHR 0x0A]] None) initial_state)"
  by code_simp

section \<open>The bulk run\<close>

declare make_batches.simps [simp del]
declare bulk_loop.simps [simp del]
declare show_nat.simps [simp del]




lemma concat_make_batches: "concat (make_batches i data) = drop i data"
proof (induction i data rule: make_batches.induct)
  case (1 i data)
  show ?case
  proof (cases "i < length data")
    case True
    have "take batchSize (drop i data) @ drop (i + batchSize) data = drop i data"
      using append_take_drop_id [of batchSize "drop i data"] by (simp add: add.commute)
    with 1 True show ?thesis by (subst make_batches.simps) simp
  next
    case False
    then show ?thesis by (subst make_batches.simps) simp
  qed
qed


lemma bulk_loop_foldl:
  "bulk_loop pf net batches i st =
     foldl (\<lambda>st j. bulk_step pf net batches j st) st [i..<length batches]"
proof (induction pf net batches i st rule: bulk_loop.induct)
  case (1 pf net batches i st)
  show ?case
  proof (cases "i < length batches")
    case True
    with 1 show ?thesis by (subst bulk_loop.simps) (simp add: upt_conv_Cons)
  next
    case False
    then show ?thesis by (subst bulk_loop.simps) simp
  qed
qed

text \<open>What one round adds to the count, to the results and to the effects.\<close>

lemma bulk_step_state:
  "processedCount (fst (bulk_step pf net batches i (s, tr)))
     = processedCount s + result_count (batch_outcome pf net batches i)"
  "totalCount (fst (bulk_step pf net batches i (s, tr))) = totalCount s"
  by (simp_all add: bulk_step_def batch_outcome_def Let_def split: batch_result.splits prod.splits)




lemma batch_outcome_index:
  "batch_outcome pf net batches i = Failed err j \<Longrightarrow> j = i"
  "batch_outcome pf net batches i = Results rs j \<Longrightarrow> j = i"
  by (auto simp: batch_outcome_def processBatch_def split: response.splits option.splits)

text \<open>The rounds 0 to j - 1, from any state and any effects so far.\<close>

lemma rounds_state:
  "processedCount (fst (foldl (\<lambda>st i. bulk_step pf net batches i st) (s, tr) [0..<j]))
     = processedCount s + sum_list (map (\<lambda>i. result_count (batch_outcome pf net batches i)) [0..<j])
   \<and> totalCount (fst (foldl (\<lambda>st i. bulk_step pf net batches i st) (s, tr) [0..<j])) = totalCount s"
proof (induction j)
  case 0
  show ?case by simp
next
  case (Suc j)
  obtain s' tr' where st: "foldl (\<lambda>st i. bulk_step pf net batches i st) (s, tr) [0..<j] = (s', tr')"
    by (cases "foldl (\<lambda>st i. bulk_step pf net batches i st) (s, tr) [0..<j]") auto
  with Suc show ?case by (simp add: bulk_step_state)
qed




lemma startBulkProcessing_rounds:
  "startBulkProcessing pf net data s =
     (let st = foldl (\<lambda>st i. bulk_step pf net (make_batches 0 data) i st)
                 (s\<lparr>isLoading := True,
                    currentStatus := StatusText ''Starting batch processing...'',
                    bulkResults := [],
                    processedCount := 0\<rparr>, [Status ''Starting batch processing...''])
                 [0..<length (make_batches 0 data)]
      in (fst st\<lparr>isLoading := False,
                  currentStatus := StatusText (''Processing complete: '' @ show_nat (length data)
                     @ '' tickets processed'')\<rparr>,
          snd st @ [Status (''Processing complete: '' @ show_nat (length data) @ '' tickets processed'')]))"
  by (simp add: startBulkProcessing_def bulk_loop_foldl Let_def split: prod.splits)

lemma progress_count:
  "processedCount (bulk_progress pf net data s j)
     = sum_list (map (\<lambda>i. result_count (batch_outcome pf net (make_batches 0 data) i)) [0..<j])"
  "totalCount (bulk_progress pf net data s j) = totalCount s"
  by (simp_all add: bulk_progress_def rounds_state)

lemma final_count:
  "processedCount (fst (startBulkProcessing pf net data s))
     = processedCount (bulk_progress pf net data s (length (make_batches 0 data)))"
  "totalCount (fst (startBulkProcessing pf net data s)) = totalCount s"
  by (simp_all add: startBulkProcessing_rounds bulk_progress_def Let_def rounds_state)

lemma sum_prefix_le:
  "i \<le> j \<Longrightarrow> sum_list (map f [0..<i]) \<le> (sum_list (map f [0..<j]) :: nat)"
proof -
  assume "i \<le> j"
  then have "[0..<j] = [0..<i] @ [i..<j]"
    using upt_add_eq_append [of 0 i "j - i"] by simp
  then show ?thesis by simp
qed

lemma sum_sizes: "sum_list (map (\<lambda>i. length (xs ! i)) [0..<length xs]) = length (concat xs)"
proof -
  have "map (\<lambda>i. length (xs ! i)) [0..<length xs] = map length xs"
    by (rule nth_equalityI) simp_all
  then show ?thesis by (simp add: length_concat)
qed








lemma handleFileUpload_counts:
  "handleFileUpload pf file s0 = Inr s \<Longrightarrow>
   totalCount s = length (ticketData s) \<and> processedCount s = 0"
  by (auto simp: handleFileUpload_def Let_def split: if_splits option.splits jsval.splits)

lemma sum_list_pointwise_le:
  "list_all (\<lambda>i. f i \<le> (g i :: nat)) is \<Longrightarrow> sum_list (map f is) \<le> sum_list (map g is)"
  by (induction "is") auto

lemma sum_list_pointwise_split:
  "list_all (\<lambda>i. f i + h i = (g i :: nat)) is \<Longrightarrow>
   sum_list (map f is) + sum_list (map h is) = sum_list (map g is)"
  by (induction "is") auto

text \<open>
  C7, as the code has it. During a run the count of processed tickets never goes down, and the
  total is not touched. The count stays within the total, which an upload sets to the number
  of tickets, provided that no batch returns more results than it has tickets. When every
  batch that returns results returns one for each of its tickets, what is missing at the end
  is the number of tickets of the batches that failed.
\<close>

theorem processed_count_bounds:
  "let batches = make_batches 0 data; k = length batches;
       final = fst (startBulkProcessing pf net data s) in
     (\<forall>i j. i \<le> j \<and> j \<le> k \<longrightarrow>
        processedCount (bulk_progress pf net data s i) \<le> processedCount (bulk_progress pf net data s j))
   \<and> processedCount final = processedCount (bulk_progress pf net data s k)
   \<and> totalCount final = totalCount s
   \<and> (handleFileUpload pf file s0 = Inr s \<longrightarrow>
        totalCount s = length (ticketData s) \<and> processedCount s = 0)
   \<and> (totalCount s = length data
        \<and> list_all (\<lambda>i. result_count (batch_outcome pf net batches i) \<le> length (batches ! i)) [0..<k]
      \<longrightarrow> (\<forall>j\<le>k. processedCount (bulk_progress pf net data s j) \<le> totalCount s)
          \<and> processedCount final \<le> totalCount final)
   \<and> (totalCount s = length data
        \<and> list_all (\<lambda>i. case batch_outcome pf net batches i of
                           Results rs j \<Rightarrow> length rs = length (batches ! i)
                         | Failed err j \<Rightarrow> True) [0..<k]
      \<longrightarrow> totalCount final - processedCount final
            = sum_list (map (\<lambda>i. failed_size (batch_outcome pf net batches i) (length (batches ! i)))
                [0..<k]))"
proof -
  let ?batches = "make_batches 0 data"
  let ?k = "length ?batches"
  let ?final = "fst (startBulkProcessing pf net data s)"
  let ?cnt = "\<lambda>i. result_count (batch_outcome pf net ?batches i)"
  let ?size = "\<lambda>i. length (?batches ! i)"
  let ?failed = "\<lambda>i. failed_size (batch_outcome pf net ?batches i) (length (?batches ! i))"
  have total: "sum_list (map ?size [0..<?k]) = length data"
    by (simp add: sum_sizes concat_make_batches)
  have a: "\<forall>i j. i \<le> j \<and> j \<le> ?k \<longrightarrow>
        processedCount (bulk_progress pf net data s i) \<le> processedCount (bulk_progress pf net data s j)"
    by (simp add: progress_count sum_prefix_le)
  have b: "processedCount ?final = processedCount (bulk_progress pf net data s ?k)"
    by (rule final_count)
  have c: "totalCount ?final = totalCount s" by (rule final_count)
  have u: "handleFileUpload pf file s0 = Inr s \<longrightarrow>
        totalCount s = length (ticketData s) \<and> processedCount s = 0"
    using handleFileUpload_counts by blast
  have d: "(\<forall>j\<le>?k. processedCount (bulk_progress pf net data s j) \<le> totalCount s)
          \<and> processedCount ?final \<le> totalCount ?final"
    if t: "totalCount s = length data"
      and le: "list_all (\<lambda>i. ?cnt i \<le> ?size i) [0..<?k]"
  proof -
    have "sum_list (map ?cnt [0..<?k]) \<le> sum_list (map ?size [0..<?k])"
      using le by (rule sum_list_pointwise_le)
    then have all: "sum_list (map ?cnt [0..<?k]) \<le> totalCount s" using total t by simp
    have "processedCount (bulk_progress pf net data s j) \<le> totalCount s" if "j \<le> ?k" for j
    proof -
      have "sum_list (map ?cnt [0..<j]) \<le> sum_list (map ?cnt [0..<?k])"
        using that by (rule sum_prefix_le)
      with all show ?thesis by (simp add: progress_count)
    qed
    then show ?thesis using b c by simp
  qed
  have e: "totalCount ?final - processedCount ?final = sum_list (map ?failed [0..<?k])"
    if t: "totalCount s = length data"
      and ex: "list_all (\<lambda>i. case batch_outcome pf net ?batches i of
                           Results rs j \<Rightarrow> length rs = ?size i
                         | Failed err j \<Rightarrow> True) [0..<?k]"
  proof -
    have "list_all (\<lambda>i. ?cnt i + ?failed i = ?size i) [0..<?k]"
      unfolding list_all_iff
    proof
      fix i assume "i \<in> set [0..<?k]"
      with ex have "case batch_outcome pf net ?batches i of
                      Results rs j \<Rightarrow> length rs = ?size i
                    | Failed err j \<Rightarrow> True"
        by (simp add: list_all_iff)
      then show "?cnt i + ?failed i = ?size i"
        by (cases "batch_outcome pf net ?batches i") simp_all
    qed
    then have "sum_list (map ?cnt [0..<?k]) + sum_list (map ?failed [0..<?k])
               = sum_list (map ?size [0..<?k])"
      by (rule sum_list_pointwise_split)
    with total t have "sum_list (map ?cnt [0..<?k]) + sum_list (map ?failed [0..<?k]) = totalCount s"
      by simp
    moreover have "processedCount ?final = sum_list (map ?cnt [0..<?k])"
      by (simp add: final_count progress_count)
    ultimately show ?thesis using c by simp
  qed
  from a b c u d e show ?thesis unfolding Let_def by blast
qed

theorem processed_count_bounds_witness:
  "totalCount uploaded_twelve = length twelve_tickets
   \<and> map (\<lambda>j. processedCount (bulk_progress example_platform fails_on_second twelve_tickets
        uploaded_twelve j)) [0, 1, 2, 3] = [0, 5, 5, 7]
   \<and> processedCount (bulk_progress example_platform fails_on_second twelve_tickets uploaded_twelve 1)
       \<le> processedCount (bulk_progress example_platform fails_on_second twelve_tickets uploaded_twelve 3)
   \<and> processedCount (fst (startBulkProcessing example_platform fails_on_second twelve_tickets
        uploaded_twelve))
       \<le> totalCount (fst (startBulkProcessing example_platform fails_on_second twelve_tickets
        uploaded_twelve))
   \<and> totalCount (fst (startBulkProcessing example_platform fails_on_second twelve_tickets
        uploaded_twelve))
       - processedCount (fst (startBulkProcessing example_platform fails_on_second twelve_tickets
        uploaded_twelve)) = 5"
proof -
  have h1: "totalCount uploaded_twelve = length twelve_tickets" by code_simp
  have h2: "list_all (\<lambda>i. result_count (batch_outcome example_platform fails_on_second
                         (make_batches 0 twelve_tickets) i)
                      \<le> length (make_batches 0 twelve_tickets ! i))
         [0..<length (make_batches 0 twelve_tickets)]"
    by code_simp
  have h3: "list_all (\<lambda>i. case batch_outcome example_platform fails_on_second
                              (make_batches 0 twelve_tickets) i of
                           Results rs j \<Rightarrow> length rs = length (make_batches 0 twelve_tickets ! i)
                         | Failed err j \<Rightarrow> True)
         [0..<length (make_batches 0 twelve_tickets)]"
    by code_simp
  have h4: "(1::nat) \<le> 3 \<and> 3 \<le> length (make_batches 0 twelve_tickets)" by code_simp
  have v1: "map (\<lambda>j. processedCount (bulk_progress example_platform fails_on_second twelve_tickets
        uploaded_twelve j)) [0, 1, 2, 3] = [0, 5, 5, 7]"
    by code_simp
  have v2: "sum_list (map (\<lambda>i. failed_size (batch_outcome example_platform fails_on_second
                              (make_batches 0 twelve_tickets) i)
                         (length (make_batches 0 twelve_tickets ! i)))
                [0..<length (make_batches 0 twelve_tickets)]) = 5"
    by code_simp
  note r = processed_count_bounds
    [of twelve_tickets example_platform fails_on_second uploaded_twelve, unfolded Let_def]
  note mono = r [THEN conjunct1, rule_format, OF h4]
  note bound = r [THEN conjunct2, THEN conjunct2, THEN conjunct2, THEN conjunct2, THEN conjunct1,
      THEN mp, OF conjI [OF h1 h2], THEN conjunct2]
  note gap = r [THEN conjunct2, THEN conjunct2, THEN conjunct2, THEN conjunct2, THEN conjunct2,
      THEN mp, OF conjI [OF h1 h3]]
  show ?thesis
    apply (intro conjI)
        apply (rule h1)
       apply (rule v1)
      apply (rule mono)
     apply (rule bound)
    apply (rule trans [OF gap v2])
    done
qed

lemma handleFileUpload_small:
  "\<not> file_size file > 2 * 1024 * 1024 \<Longrightarrow>
   handleFileUpload pf file s =
     (if \<not> endsWith (file_name file) ''.json'' then Inl ''Please upload a JSON file''
      else (case JSON_parse pf (file_text file) of
              None \<Rightarrow> Inl ''Invalid JSON file format''
            | Some (Arr data) \<Rightarrow>
                if list_ex nullish data then Inl ''Invalid JSON file format''
                else
                  (let invalidTickets =
                         filter (\<lambda>ticket. \<not> truthy (js_get ticket ''id'')
                                   \<or> \<not> truthy (js_get ticket ''body'')) data
                   in if length invalidTickets > 0
                      then Inl (show_nat (length invalidTickets)
                                @ '' tickets are missing required fields (id, body)'')
                      else Inr (s\<lparr>ticketData := data,
                                  totalCount := length data,
                                  processedCount := 0,
                                  bulkResults := [],
                                  currentStatus := StatusText (''File uploaded: ''
                                     @ show_nat (length data) @ '' tickets. Starting processing...'')\<rparr>))
            | Some _ \<Rightarrow> Inl ''JSON file must contain an array of tickets''))"
  by (simp add: handleFileUpload_def)

text \<open>
  C7 as stated fails: the count grows by the number of events that parse, whatever the number
  of tickets. One uploaded ticket and a stream with two events give a count of 2 beside a
  total of 1.
\<close>

theorem processed_exceeds_total_counterexample:
  "map_sum id (\<lambda>r. (processedCount (fst r), totalCount (fst r)))
     (upload_and_process example_platform two_events one_ticket_file initial_state)
   = Inr (2, 1)"
proof -
  have "\<not> file_size one_ticket_file > 2 * 1024 * 1024" by (simp add: one_ticket_file_def)
  note u = handleFileUpload_small [OF this, of example_platform initial_state]
  show ?thesis unfolding upload_and_process_def u by code_simp
qed


end
